theory Spec2Isabelle
  imports Complex_Main "HOL-Library.Multiset"
begin

section \<open>Errors\<close>

text \<open>
  Every exception the modelled Python raises is a value of this type. The first two
  constructors are \<^verbatim>\<open>ValueError\<close> in the source, told apart by their message;
  \<open>UnseenLabel\<close> is the \<^verbatim>\<open>ValueError\<close> of scikit-learn's
  \<^verbatim>\<open>LabelEncoder.transform\<close> on a label it was not fitted on.
\<close>

datatype error =
    InvalidLatitude real
  | InvalidLongitude real
  | UnseenLabel string
  | KeyError string
  | IndexError
  | AttributeError

section \<open>Geographic calculator (src/utils/geographic.py)\<close>

type_synonym coord = "real \<times> real"

text \<open>\<^verbatim>\<open>_validate_coordinates\<close>: latitude is checked first, then longitude.\<close>

definition validate_coordinates :: "coord \<Rightarrow> error + unit" where
  "validate_coordinates c =
     (let lat = fst c; lon = snd c in
      if \<not> (- 90 \<le> lat \<and> lat \<le> 90) then Inl (InvalidLatitude lat)
      else if \<not> (- 180 \<le> lon \<and> lon \<le> 180) then Inl (InvalidLongitude lon)
      else Inr ())"

text \<open>
  \<^verbatim>\<open>calculate_distance\<close>: validate both coordinates, then call the third-party
  function \<^verbatim>\<open>haversine\<close>, here the parameter \<open>hv\<close>. The exception is logged and
  re-raised.
\<close>

definition calculate_distance :: "(coord \<Rightarrow> coord \<Rightarrow> real) \<Rightarrow> coord \<Rightarrow> coord \<Rightarrow> error + real" where
  "calculate_distance hv coord1 coord2 =
     (case validate_coordinates coord1 of
        Inl e \<Rightarrow> Inl e
      | Inr _ \<Rightarrow>
          (case validate_coordinates coord2 of
             Inl e \<Rightarrow> Inl e
           | Inr _ \<Rightarrow> Inr (hv coord1 coord2)))"

text \<open>Degrees to radians.\<close>

definition radians :: "real \<Rightarrow> real" where
  "radians x = x * pi / 180"

text \<open>
  Modelled from the spec: the function \<^verbatim>\<open>haversine\<close> of the third-party package of
  the same name, which \<^verbatim>\<open>calculate_distance\<close> imports and which is not part of the
  repository. The spec calls it the great-circle distance in kilometres by the haversine
  formula; the formula is written over the reals, with the package's mean earth radius.
\<close>

definition haversine :: "coord \<Rightarrow> coord \<Rightarrow> real" where
  "haversine p1 p2 =
     (let lat1 = radians (fst p1); lng1 = radians (snd p1);
          lat2 = radians (fst p2); lng2 = radians (snd p2);
          lat = lat2 - lat1; lng = lng2 - lng1;
          d = (sin (lat * 0.5))\<^sup>2 + cos lat1 * cos lat2 * (sin (lng * 0.5))\<^sup>2
      in 2 * 6371.0088 * arcsin (sqrt d))"

text \<open>
  Python list indexing: an index in \<open>[-n, n)\<close> is accepted, a negative one counts from
  the end, anything else raises \<^verbatim>\<open>IndexError\<close>.
\<close>

definition py_index :: "nat \<Rightarrow> int \<Rightarrow> nat option" where
  "py_index n i =
     (if 0 \<le> i \<and> i < int n then Some (nat i)
      else if - int n \<le> i \<and> i < 0 then Some (nat (int n + i))
      else None)"

text \<open>
  The comparison \<^verbatim>\<open>distance < min_distance\<close>, where \<^verbatim>\<open>min_distance\<close> starts as
  \<^verbatim>\<open>float('inf')\<close>: \<open>None\<close> stands for infinity.
\<close>

fun below :: "real \<Rightarrow> real option \<Rightarrow> bool" where
  "below d None = True"
| "below d (Some m) = (d < m)"

text \<open>
  The inner loop of \<^verbatim>\<open>nearest_neighbor_route\<close>, over the indices still to scan. The
  accumulator is \<^verbatim>\<open>(min_distance, next_index)\<close>; \<open>cur\<close> is \<^verbatim>\<open>coordinates[current]\<close>.
\<close>

fun scan_nearest ::
  "(coord \<Rightarrow> coord \<Rightarrow> real) \<Rightarrow> coord list \<Rightarrow> coord \<Rightarrow> bool list \<Rightarrow> nat list \<Rightarrow>
   real option \<times> int \<Rightarrow> error + (real option \<times> int)" where
  "scan_nearest hv coordinates cur visited [] acc = Inr acc"
| "scan_nearest hv coordinates cur visited (i # todo) (min_distance, next_index) =
     (if visited ! i then scan_nearest hv coordinates cur visited todo (min_distance, next_index)
      else
        (case calculate_distance hv cur (coordinates ! i) of
           Inl e \<Rightarrow> Inl e
         | Inr distance \<Rightarrow>
             if below distance min_distance
             then scan_nearest hv coordinates cur visited todo (Some distance, int i)
             else scan_nearest hv coordinates cur visited todo (min_distance, next_index)))"

text \<open>
  The outer loop, \<^verbatim>\<open>for _ in range(n - 1)\<close>, with the number of iterations left as
  first argument. \<open>current\<close> is the Python index held in \<^verbatim>\<open>current\<close>, which is
  negative only when the start index was.
\<close>

fun nn_loop ::
  "(coord \<Rightarrow> coord \<Rightarrow> real) \<Rightarrow> coord list \<Rightarrow> nat \<Rightarrow> bool list \<Rightarrow> int list \<Rightarrow> int \<Rightarrow>
   error + int list" where
  "nn_loop hv coordinates 0 visited route current = Inr route"
| "nn_loop hv coordinates (Suc k) visited route current =
     (case py_index (length coordinates) current of
        None \<Rightarrow> Inl IndexError
      | Some c \<Rightarrow>
          (case scan_nearest hv coordinates (coordinates ! c) visited
                  [0 ..< length coordinates] (None, - 1) of
             Inl e \<Rightarrow> Inl e
           | Inr (min_distance, next_index) \<Rightarrow>
               if next_index \<noteq> - 1
               then nn_loop hv coordinates k (visited[nat next_index := True])
                      (route @ [next_index]) next_index
               else nn_loop hv coordinates k visited route current))"

definition nearest_neighbor_route ::
  "(coord \<Rightarrow> coord \<Rightarrow> real) \<Rightarrow> coord list \<Rightarrow> int \<Rightarrow> error + int list" where
  "nearest_neighbor_route hv coordinates start_index =
     (if length coordinates \<le> 1 then Inr [0]
      else
        (let n = length coordinates in
         case py_index n start_index of
           None \<Rightarrow> Inl IndexError
         | Some s \<Rightarrow>
             nn_loop hv coordinates (n - 1) ((replicate n False)[s := True])
               [start_index] start_index))"

text \<open>
  \<^verbatim>\<open>calculate_route_distance\<close>: the sum of the distances between consecutive indices
  of the route.
\<close>

fun calculate_route_distance ::
  "(coord \<Rightarrow> coord \<Rightarrow> real) \<Rightarrow> coord list \<Rightarrow> int list \<Rightarrow> error + real" where
  "calculate_route_distance hv coordinates (i # j # rest) =
     (case (py_index (length coordinates) i, py_index (length coordinates) j) of
        (Some a, Some b) \<Rightarrow>
          (case calculate_distance hv (coordinates ! a) (coordinates ! b) of
             Inl e \<Rightarrow> Inl e
           | Inr d \<Rightarrow>
               (case calculate_route_distance hv coordinates (j # rest) of
                  Inl e \<Rightarrow> Inl e
                | Inr more_km \<Rightarrow> Inr (d + more_km)))
      | _ \<Rightarrow> Inl IndexError)"
| "calculate_route_distance hv coordinates _ = Inr 0"

text \<open>
  After a run of \<^verbatim>\<open>nearest_neighbor_route\<close> that reaches its last line, the log
  message computes the distance of the route once more; every coordinate it reads was
  validated by the loop, so it raises nothing and the model leaves it out.
\<close>

section \<open>Python values and helpers\<close>

text \<open>
  The values a cell of a route dictionary can hold, as far as \<^verbatim>\<open>validate_route_data\<close>
  tells them apart: \<^verbatim>\<open>isinstance(x, (int, float))\<close> holds of the first two.
\<close>

datatype pyval = PyInt int | PyFloat real | PyStr string | PyNone

fun is_number :: "pyval \<Rightarrow> bool" where
  "is_number (PyInt _) = True"
| "is_number (PyFloat _) = True"
| "is_number _ = False"

text \<open>A dictionary with string keys, in insertion order.\<close>

type_synonym location = "(string \<times> pyval) list"

text \<open>
  \<^verbatim>\<open>round(x, ndigits)\<close> over the reals: the nearest multiple of \<open>10^-ndigits\<close>, a tie
  going to the even one. The source rounds binary floats, which are not modelled: a
  decimal that sits on a tie here is a float just above or below the tie there
  (\<^verbatim>\<open>round(0.4705, 3)\<close> is 0.471 in Python and 0.47 here), and a float result is
  the float next to the decimal. The two agree up to the direction of such ties.
\<close>

definition round_half_even :: "real \<Rightarrow> int" where
  "round_half_even x =
     (let f = \<lfloor>x\<rfloor>; d = x - of_int f in
      if d < 1 / 2 then f else if d > 1 / 2 then f + 1 else if even f then f else f + 1)"

definition py_round :: "real \<Rightarrow> nat \<Rightarrow> real" where
  "py_round x ndigits = of_int (round_half_even (x * 10 ^ ndigits)) / 10 ^ ndigits"

text \<open>The slice \<^verbatim>\<open>xs[:k]\<close>: a negative \<open>k\<close> counts from the end.\<close>

definition py_take :: "int \<Rightarrow> 'a list \<Rightarrow> 'a list" where
  "py_take k xs = (if 0 \<le> k then take (nat k) xs else take (nat (int (length xs) + k)) xs)"

text \<open>\<^verbatim>\<open>x or default\<close> on an optional number: \<^verbatim>\<open>None\<close> and zero are both falsy.\<close>

definition or_default :: "'a::zero option \<Rightarrow> 'a \<Rightarrow> 'a" where
  "or_default x d = (case x of None \<Rightarrow> d | Some v \<Rightarrow> if v = 0 then d else v)"

text \<open>Decimal rendering of a number inside an f-string.\<close>

definition digit_char :: "nat \<Rightarrow> char" where
  "digit_char d = ''0123456789'' ! d"

fun str_nat :: "nat \<Rightarrow> string" where
  "str_nat n = (if n < 10 then [digit_char n] else str_nat (n div 10) @ [digit_char (n mod 10)])"

text \<open>The distinct values of a column in order of first appearance (\<^verbatim>\<open>Series.unique\<close>).\<close>

fun unique :: "'a list \<Rightarrow> 'a list" where
  "unique [] = []"
| "unique (x # xs) = x # unique (filter (\<lambda>y. y \<noteq> x) xs)"

section \<open>Configuration (config/settings.py)\<close>

record config =
  route_clustering :: bool
  n_clusters :: int
  default_max_budget :: real
  default_max_locations :: int
  default_num_routes :: int
  weight_fragilidade :: real
  weight_distancia :: real
  weight_custo :: real

definition default_config :: config where
  "default_config =
     \<lparr> route_clustering = True, n_clusters = 6,
       default_max_budget = 20000, default_max_locations = 6, default_num_routes = 5,
       weight_fragilidade = 0.45, weight_distancia = 0.35, weight_custo = 0.20 \<rparr>"

section \<open>Route validation (src/utils/validators.py)\<close>

definition required_route_fields :: "string list" where
  "required_route_fields =
     [''nome'', ''provincia'', ''latitude'', ''longitude'', ''fragilidade'', ''taxa_aoa'']"

text \<open>One pass of the loop body of \<^verbatim>\<open>validate_route_data\<close> for one location.\<close>

definition location_ok :: "location \<Rightarrow> bool" where
  "location_ok loc =
     (list_all (\<lambda>f. map_of loc f \<noteq> None) required_route_fields \<and>
      (case map_of loc ''latitude'' of Some v \<Rightarrow> is_number v | None \<Rightarrow> False) \<and>
      (case map_of loc ''longitude'' of Some v \<Rightarrow> is_number v | None \<Rightarrow> False) \<and>
      (case map_of loc ''fragilidade'' of Some v \<Rightarrow> is_number v | None \<Rightarrow> False))"

definition validate_route_data :: "location list \<Rightarrow> bool" where
  "validate_route_data route_data = (route_data \<noteq> [] \<and> list_all location_ok route_data)"

section \<open>Route optimizer (src/core/route_optimizer.py)\<close>

text \<open>
  A row of the validated catalog, which has every required column, the numeric ones
  numeric. The derived score columns are read by K-Means only, which is a parameter
  here, and are left out.
\<close>

record site =
  nome :: string
  provincia :: string
  latitude :: real
  longitude :: real
  fragilidade :: int
  capacidade_diaria :: int
  taxa_aoa :: real
  tipo_ecosistema :: string
  descricao :: string

text \<open>A row of the clustered data frame: the site and its \<^verbatim>\<open>cluster\<close> column.\<close>

type_synonym row = "site \<times> nat"

text \<open>\<^verbatim>\<open>DataFrame.to_dict('records')\<close> of one row.\<close>

definition to_dict :: "row \<Rightarrow> location" where
  "to_dict r =
     [(''nome'', PyStr (nome (fst r))),
      (''provincia'', PyStr (provincia (fst r))),
      (''latitude'', PyFloat (latitude (fst r))),
      (''longitude'', PyFloat (longitude (fst r))),
      (''fragilidade'', PyInt (fragilidade (fst r))),
      (''capacidade_diaria'', PyInt (capacidade_diaria (fst r))),
      (''taxa_aoa'', PyFloat (taxa_aoa (fst r))),
      (''tipo_ecosistema'', PyStr (tipo_ecosistema (fst r))),
      (''descricao'', PyStr (descricao (fst r))),
      (''cluster'', PyInt (int (snd r)))]"

text \<open>
  A route dictionary. \<^verbatim>\<open>provincias\<close> and \<^verbatim>\<open>tipos_ecosistema\<close> are built by
  \<^verbatim>\<open>list(set(...))\<close>, whose order Python does not fix: they are sets here. The key
  \<^verbatim>\<open>score\<close> is absent until \<^verbatim>\<open>_calculate_route_scores\<close> stores it.
\<close>

record route =
  rota_nome :: string
  locais :: "location list"
  num_locais :: nat
  distancia_total_km :: real
  custo_total_aoa :: real
  fragilidade_media :: real
  provincias :: "string set"
  tipos_ecosistema :: "string set"
  score :: "real option"

definition site_coord :: "row \<Rightarrow> coord" where
  "site_coord r = (latitude (fst r), longitude (fst r))"

text \<open>\<^verbatim>\<open>[locations_list[i] for i in optimized_indices]\<close>; an index out of range raises.\<close>

fun pick :: "'a list \<Rightarrow> int list \<Rightarrow> 'a list option" where
  "pick xs [] = Some []"
| "pick xs (i # rest) =
     (case py_index (length xs) i of
        None \<Rightarrow> None
      | Some k \<Rightarrow> (case pick xs rest of None \<Rightarrow> None | Some ys \<Rightarrow> Some (xs ! k # ys)))"

text \<open>
  \<^verbatim>\<open>_create_route_from_locations\<close>. Every exception inside is caught and turned into
  \<^verbatim>\<open>None\<close>. The sums of the prices and of the fragilities are over unbounded numbers,
  where the columns of the data frame hold 64-bit integers or floats.
\<close>

definition create_route_from_locations ::
  "(coord \<Rightarrow> coord \<Rightarrow> real) \<Rightarrow> row list \<Rightarrow> real \<Rightarrow> route option" where
  "create_route_from_locations hv locations_df max_budget =
     (let total_cost = sum_list (map (\<lambda>r. taxa_aoa (fst r)) locations_df) in
      if total_cost > max_budget then None
      else
        (case nearest_neighbor_route hv (map site_coord locations_df) 0 of
           Inl _ \<Rightarrow> None
         | Inr optimized_indices \<Rightarrow>
             (case pick locations_df optimized_indices of
                None \<Rightarrow> None
              | Some optimized_locations \<Rightarrow>
                  (case calculate_route_distance hv (map site_coord optimized_locations)
                          (map int [0 ..< length optimized_locations]) of
                     Inl _ \<Rightarrow> None
                   | Inr total_distance \<Rightarrow>
                       (let avg_fragility =
                              real_of_int (sum_list (map (\<lambda>r. fragilidade (fst r)) optimized_locations))
                                / real (length optimized_locations)
                        in Some
                          \<lparr> rota_nome = ''Rota Cluster '' @ str_nat (snd (hd locations_df) + 1) @ '' - ''
                                @ str_nat (length optimized_locations) @ '' locais'',
                            locais = map to_dict optimized_locations,
                            num_locais = length optimized_locations,
                            distancia_total_km = py_round total_distance 2,
                            custo_total_aoa = total_cost,
                            fragilidade_media = py_round avg_fragility 2,
                            provincias = set (map (\<lambda>r. provincia (fst r)) optimized_locations),
                            tipos_ecosistema = set (map (\<lambda>r. tipo_ecosistema (fst r)) optimized_locations),
                            score = None \<rparr>)))))"

text \<open>
  \<^verbatim>\<open>_create_geographic_clusters\<close>. The scaling and the K-Means of scikit-learn, which
  is given the configured \<^verbatim>\<open>random_state\<close>, are the parameter \<open>kmeans\<close>, from the number
  of clusters and the rows to one label per row; \<open>None\<close> is an exception raised by it. Any exception, also the one of assigning a
  column of the wrong length, falls back to the single cluster 0.
\<close>

definition create_geographic_clusters ::
  "config \<Rightarrow> (nat \<Rightarrow> site list \<Rightarrow> nat list option) \<Rightarrow> site list \<Rightarrow> row list" where
  "create_geographic_clusters cfg kmeans df =
     (let configured = (if route_clustering cfg \<and> n_clusters cfg \<noteq> 0 then n_clusters cfg else 1);
          k = min configured (min (int (length df div 2)) (int (length df)))
      in if k < 2 then map (\<lambda>s. (s, 0)) df
         else
           (case kmeans (nat k) df of
              None \<Rightarrow> map (\<lambda>s. (s, 0)) df
            | Some clusters \<Rightarrow>
                if length clusters = length df then zip df clusters
                else map (\<lambda>s. (s, 0)) df))"

text \<open>
  The sampling loop of \<^verbatim>\<open>_generate_cluster_routes\<close>, with the number of attempts left.
  \<open>randint\<close> is \<^verbatim>\<open>np.random.randint(1000)\<close> on the state \<open>g\<close> of the global random
  source. \<open>sample\<close> is the choice that \<^verbatim>\<open>DataFrame.sample(n, random_state)\<close> makes, from
  the random state, \<open>n\<close> and the number of rows to the positions of the rows it takes.
  A negative \<open>n\<close> makes \<^verbatim>\<open>sample\<close> raise, after the draw, and so would a position
  out of range: the result is then \<open>None\<close>.
\<close>

fun sample_routes ::
  "(coord \<Rightarrow> coord \<Rightarrow> real) \<Rightarrow> (nat \<Rightarrow> nat \<Rightarrow> nat \<Rightarrow> nat list) \<Rightarrow> ('g \<Rightarrow> nat \<times> 'g) \<Rightarrow>
   row list \<Rightarrow> int \<Rightarrow> real \<Rightarrow> nat \<Rightarrow> 'g \<Rightarrow> route list option \<times> 'g" where
  "sample_routes hv sample randint cluster_df max_locations max_budget 0 g = (Some [], g)"
| "sample_routes hv sample randint cluster_df max_locations max_budget (Suc attempts) g =
     (let (random_state, g1) = randint g;
          n = min max_locations (int (length cluster_df))
      in if n < 0 then (None, g1)
         else
           (case pick cluster_df (map int (sample random_state (nat n) (length cluster_df))) of
              None \<Rightarrow> (None, g1)
            | Some selected_locations \<Rightarrow>
                (let route = create_route_from_locations hv selected_locations max_budget;
                     (more, g2) =
                       sample_routes hv sample randint cluster_df max_locations max_budget attempts g1
                 in (case more of
                       None \<Rightarrow> (None, g2)
                     | Some routes \<Rightarrow>
                         (case route of
                            None \<Rightarrow> (Some routes, g2)
                          | Some r \<Rightarrow> (Some (r # routes), g2))))))"

text \<open>\<^verbatim>\<open>_generate_cluster_routes\<close>; an exception gives the empty list.\<close>

definition generate_cluster_routes ::
  "(coord \<Rightarrow> coord \<Rightarrow> real) \<Rightarrow> (nat \<Rightarrow> nat \<Rightarrow> nat \<Rightarrow> nat list) \<Rightarrow> ('g \<Rightarrow> nat \<times> 'g) \<Rightarrow>
   row list \<Rightarrow> int \<Rightarrow> real \<Rightarrow> 'g \<Rightarrow> route list \<times> 'g" where
  "generate_cluster_routes hv sample randint cluster_df max_locations max_budget g =
     (let cluster_size = length cluster_df in
      if int cluster_size \<le> max_locations then
        (case create_route_from_locations hv cluster_df max_budget of
           None \<Rightarrow> ([], g)
         | Some route \<Rightarrow> ([route], g))
      else
        (case sample_routes hv sample randint cluster_df max_locations max_budget
                (min 3 (cluster_size div 2)) g of
           (None, g') \<Rightarrow> ([], g')
         | (Some routes, g') \<Rightarrow> (routes, g')))"

text \<open>
  \<^verbatim>\<open>_calculate_route_scores\<close>: the weighted sum, stored rounded to three decimals.
  The rounding \<^verbatim>\<open>round(score, 3)\<close> of the float is the parameter \<open>round3\<close>, so that
  what is proved of the stored scores does not rest on the rounding over the reals above.
\<close>

definition route_score :: "config \<Rightarrow> route \<Rightarrow> real" where
  "route_score cfg r =
     weight_fragilidade cfg * fragilidade_media r
     + weight_distancia cfg * (distancia_total_km r / 1000)
     + weight_custo cfg * (custo_total_aoa r / 100000)"

definition calculate_route_scores :: "(real \<Rightarrow> real) \<Rightarrow> config \<Rightarrow> route list \<Rightarrow> route list" where
  "calculate_route_scores round3 cfg routes =
     map (\<lambda>r. r\<lparr>score := Some (round3 (route_score cfg r))\<rparr>) routes"

text \<open>
  \<^verbatim>\<open>_select_best_routes\<close>. \<^verbatim>\<open>sorted\<close> is stable, as \<open>sort_key\<close> is. A route without
  the key \<^verbatim>\<open>score\<close> makes the sort raise \<^verbatim>\<open>KeyError\<close>, and the handler returns the
  first \<^verbatim>\<open>num_routes\<close> routes as they came, unvalidated.
\<close>

definition select_best_routes :: "route list \<Rightarrow> int \<Rightarrow> route list" where
  "select_best_routes scored_routes num_routes =
     (if scored_routes = [] then []
      else if list_ex (\<lambda>r. score r = None) scored_routes then py_take num_routes scored_routes
      else
        (let sorted_routes = sort_key (\<lambda>r. the (score r)) scored_routes;
             best_routes = py_take num_routes sorted_routes
         in filter (\<lambda>r. validate_route_data (locais r)) best_routes))"

text \<open>The loop of \<^verbatim>\<open>generate_routes\<close> over the cluster labels.\<close>

fun cluster_loop ::
  "(coord \<Rightarrow> coord \<Rightarrow> real) \<Rightarrow> (nat \<Rightarrow> nat \<Rightarrow> nat \<Rightarrow> nat list) \<Rightarrow> ('g \<Rightarrow> nat \<times> 'g) \<Rightarrow>
   row list \<Rightarrow> int \<Rightarrow> real \<Rightarrow> nat list \<Rightarrow> 'g \<Rightarrow> route list \<times> 'g" where
  "cluster_loop hv sample randint df_clustered max_locations max_budget [] g = ([], g)"
| "cluster_loop hv sample randint df_clustered max_locations max_budget (cluster_id # ids) g =
     (let cluster_df = filter (\<lambda>r. snd r = cluster_id) df_clustered;
          (cluster_routes, g1) =
            generate_cluster_routes hv sample randint cluster_df max_locations max_budget g;
          (more, g2) = cluster_loop hv sample randint df_clustered max_locations max_budget ids g1
      in (cluster_routes @ more, g2))"

text \<open>
  \<^verbatim>\<open>generate_routes\<close>. The arguments default to \<^verbatim>\<open>None\<close>; the result comes with the
  state of the random source after the call. The scores are rounded over the reals.
\<close>

definition generate_routes ::
  "config \<Rightarrow> (coord \<Rightarrow> coord \<Rightarrow> real) \<Rightarrow> (nat \<Rightarrow> site list \<Rightarrow> nat list option) \<Rightarrow>
   (nat \<Rightarrow> nat \<Rightarrow> nat \<Rightarrow> nat list) \<Rightarrow> ('g \<Rightarrow> nat \<times> 'g) \<Rightarrow>
   site list \<Rightarrow> int option \<Rightarrow> int option \<Rightarrow> real option \<Rightarrow> 'g \<Rightarrow> route list \<times> 'g" where
  "generate_routes cfg hv kmeans sample randint df max_locations num_routes max_budget g =
     (let max_locations' = or_default max_locations (default_max_locations cfg);
          num_routes' = or_default num_routes (default_num_routes cfg);
          max_budget' = or_default max_budget (default_max_budget cfg)
      in if df = [] then ([], g)
         else
           (let df_clustered = create_geographic_clusters cfg kmeans df;
                (all_routes, g') =
                  cluster_loop hv sample randint df_clustered max_locations' max_budget'
                    (unique (map snd df_clustered)) g;
                scored_routes = calculate_route_scores (\<lambda>x. py_round x 3) cfg all_routes
            in (select_best_routes scored_routes num_routes', g')))"

section \<open>User profiles (src/utils/validators.py)\<close>

text \<open>A user profile is a dictionary from field names to numbers.\<close>

type_synonym profile = "string \<Rightarrow> real option"

definition required_fields :: "string list" where
  "required_fields =
     [''idade'', ''orcamento_max'', ''preferencia_sustentabilidade'',
      ''preferencia_aventura'', ''preferencia_cultura'']"

definition preference_fields :: "string list" where
  "preference_fields =
     [''preferencia_sustentabilidade'', ''preferencia_aventura'', ''preferencia_cultura'']"

definition validate_user_profile :: "profile \<Rightarrow> bool" where
  "validate_user_profile profile =
     (if list_ex (\<lambda>f. profile f = None) required_fields then False
      else if \<not> (18 \<le> the (profile ''idade'') \<and> the (profile ''idade'') \<le> 100) then False
      else if the (profile ''orcamento_max'') \<le> 0 then False
      else list_all (\<lambda>f. 0 \<le> the (profile f) \<and> the (profile f) \<le> 1) preference_fields)"

section \<open>Rating prediction (src/ml/ml_recommendation_engine.py)\<close>

text \<open>
  The fields of \<^verbatim>\<open>MLRecommendationEngine\<close> that rating prediction reads. The fitted
  regressor is its \<^verbatim>\<open>predict\<close> on one scaled feature vector, the fitted scaler its
  \<^verbatim>\<open>transform\<close>, a fitted label encoder its list of classes.
\<close>

record engine =
  engine_df :: "site list option"
  rating_model :: "(real list \<Rightarrow> real) option"
  scaler :: "real list \<Rightarrow> real list"
  label_encoders :: "string \<Rightarrow> string list option"

definition ebind :: "error + 'a \<Rightarrow> ('a \<Rightarrow> error + 'b) \<Rightarrow> error + 'b" where
  "ebind m f = (case m of Inl e \<Rightarrow> Inl e | Inr x \<Rightarrow> f x)"

definition getitem :: "(string \<Rightarrow> 'a option) \<Rightarrow> string \<Rightarrow> error + 'a" where
  "getitem d k = (case d k of None \<Rightarrow> Inl (KeyError k) | Some v \<Rightarrow> Inr v)"

text \<open>\<^verbatim>\<open>self.df.iloc[local_id]\<close>.\<close>

definition iloc :: "site list option \<Rightarrow> int \<Rightarrow> error + site" where
  "iloc d i =
     (case d of
        None \<Rightarrow> Inl AttributeError
      | Some rows \<Rightarrow>
          (case py_index (length rows) i of None \<Rightarrow> Inl IndexError | Some k \<Rightarrow> Inr (rows ! k)))"

text \<open>
  \<^verbatim>\<open>LabelEncoder.transform([label])[0]\<close>: the position of the label among the classes
  seen at fitting, an error for a label not among them.
\<close>

fun index_of :: "string list \<Rightarrow> string \<Rightarrow> nat option" where
  "index_of [] x = None"
| "index_of (c # cs) x = (if c = x then Some 0 else map_option Suc (index_of cs x))"

definition transform :: "string list \<Rightarrow> string \<Rightarrow> error + real" where
  "transform classes label =
     (case index_of classes label of None \<Rightarrow> Inl (UnseenLabel label) | Some k \<Rightarrow> Inr (real k))"

text \<open>\<^verbatim>\<open>np.clip(x, lo, hi)\<close>.\<close>

definition clip :: "real \<Rightarrow> real \<Rightarrow> real \<Rightarrow> real" where
  "clip x lo hi = min hi (max lo x)"

text \<open>
  \<^verbatim>\<open>prever_rating_usuario\<close>. The cells of the feature array are evaluated in the order
  written; the function has no handler, so the first exception leaves it.
\<close>

definition prever_rating_usuario :: "engine \<Rightarrow> profile \<Rightarrow> int \<Rightarrow> error + real" where
  "prever_rating_usuario eng user_profile local_id =
     (case rating_model eng of
        None \<Rightarrow> Inr 3.0
      | Some predict \<Rightarrow>
          ebind (iloc (engine_df eng) local_id) (\<lambda>local.
          ebind (getitem user_profile ''idade'') (\<lambda>idade.
          ebind (getitem user_profile ''orcamento_max'') (\<lambda>orcamento_max.
          ebind (getitem user_profile ''preferencia_sustentabilidade'') (\<lambda>pref_sust.
          ebind (getitem user_profile ''preferencia_aventura'') (\<lambda>pref_avent.
          ebind (getitem user_profile ''preferencia_cultura'') (\<lambda>pref_cult.
          ebind (getitem (label_encoders eng) ''ecosistema'') (\<lambda>le_ecosistema.
          ebind (transform le_ecosistema (tipo_ecosistema local)) (\<lambda>ecosistema_encoded.
          ebind (getitem (label_encoders eng) ''provincia'') (\<lambda>le_provincia.
          ebind (transform le_provincia (provincia local)) (\<lambda>provincia_encoded.
            (let features =
                   [idade, orcamento_max, pref_sust, pref_avent, pref_cult,
                    real_of_int (fragilidade local), taxa_aoa local,
                    ecosistema_encoded, provincia_encoded];
                 features_scaled = scaler eng features;
                 rating_previsto = predict features_scaled
             in Inr (clip rating_previsto 1 5)))))))))))))"

section \<open>Personalised routes (ecoturismo_system.py)\<close>

text \<open>
  The state of \<^verbatim>\<open>EcoTurismoSystem\<close> that \<^verbatim>\<open>gerar_rotas_personalizadas_ml\<close> reads and
  writes; \<open>'r\<close> is the type of a personalised route.
\<close>

record 'r system =
  use_ml :: bool
  ml_engine :: "engine option"
  system_df :: "site list option"
  rotas_recomendadas :: "'r list"

text \<open>
  \<^verbatim>\<open>gerar_rotas_personalizadas_ml\<close>. Without the engine or without data it prints a
  message and returns the empty list. \<open>train\<close> is the four calls that train the engine
  when it has no rating model (\<^verbatim>\<open>criar_features_engenharia\<close>,
  \<^verbatim>\<open>criar_dados_sinteticos_usuarios\<close>, \<^verbatim>\<open>treinar_modelo_rating\<close>,
  \<^verbatim>\<open>criar_clusters_locais\<close>): the engine after them, and the exception they raised if
  any. \<open>personalize\<close> is \<^verbatim>\<open>ml_engine.gerar_rotas_personalizadas\<close>, which may raise as
  well. The function has no handler and no other statement: the profile reaches the
  engine as it came. The result comes with the state after the call.

  The module \<^verbatim>\<open>src/core/ecoturismo_system.py\<close> holds a later version of this method,
  \<^verbatim>\<open>generate_ml_routes\<close>, that calls \<^verbatim>\<open>validate_user_profile\<close> first; its \<^verbatim>\<open>try:\<close>
  is followed by a line at the same indentation, so the module cannot be imported, and
  it is not modelled.
\<close>

definition gerar_rotas_personalizadas_ml ::
  "(engine \<Rightarrow> error option \<times> engine) \<Rightarrow>
   (engine \<Rightarrow> profile \<Rightarrow> real \<Rightarrow> int \<Rightarrow> int \<Rightarrow> error + 'r list) \<Rightarrow>
   'r system \<Rightarrow> profile \<Rightarrow> real \<Rightarrow> int \<Rightarrow> int \<Rightarrow> (error + 'r list) \<times> 'r system" where
  "gerar_rotas_personalizadas_ml train personalize sys user_profile orcamento_max max_locais num_rotas =
     (case (if use_ml sys then ml_engine sys else None) of
        None \<Rightarrow> (Inr [], sys)
      | Some eng \<Rightarrow>
          if system_df sys = None then (Inr [], sys)
          else
            (case (if rating_model eng = None then train eng else (None, eng)) of
               (Some e, eng') \<Rightarrow> (Inl e, sys\<lparr>ml_engine := Some eng'\<rparr>)
             | (None, eng') \<Rightarrow>
                 (case personalize eng' user_profile orcamento_max max_locais num_rotas of
                    Inl e \<Rightarrow> (Inl e, sys\<lparr>ml_engine := Some eng'\<rparr>)
                  | Inr rotas_personalizadas \<Rightarrow>
                      (Inr rotas_personalizadas,
                       sys\<lparr>ml_engine := Some eng', rotas_recomendadas := rotas_personalizadas\<rparr>))))"

section \<open>Vocabulary of the properties\<close>

text \<open>A coordinate within the bounds that \<^verbatim>\<open>_validate_coordinates\<close> accepts.\<close>

definition coord_valid :: "coord \<Rightarrow> bool" where
  "coord_valid c = (- 90 \<le> fst c \<and> fst c \<le> 90 \<and> - 180 \<le> snd c \<and> snd c \<le> 180)"

definition coords_valid :: "coord list \<Rightarrow> bool" where
  "coords_valid cs = list_all coord_valid cs"

text \<open>
  In the words of the spec: \<open>j\<close> is the unvisited point of minimum distance to the
  current point \<open>cur\<close>, the lowest index among those at that distance; \<open>seen\<close> are
  the points visited so far.
\<close>

definition nearest_unvisited ::
  "(coord \<Rightarrow> coord \<Rightarrow> real) \<Rightarrow> coord list \<Rightarrow> nat \<Rightarrow> nat set \<Rightarrow> nat \<Rightarrow> bool" where
  "nearest_unvisited hv cs cur seen j =
     (j < length cs \<and> j \<notin> seen \<and>
      (\<forall>i < length cs. i \<notin> seen \<longrightarrow>
         hv (cs ! cur) (cs ! j) \<le> hv (cs ! cur) (cs ! i) \<and>
         (hv (cs ! cur) (cs ! i) = hv (cs ! cur) (cs ! j) \<longrightarrow> j \<le> i)))"

text \<open>Every step of the tour \<open>p\<close> goes to the nearest unvisited point.\<close>

definition greedy_tour :: "(coord \<Rightarrow> coord \<Rightarrow> real) \<Rightarrow> coord list \<Rightarrow> nat list \<Rightarrow> bool" where
  "greedy_tour hv cs p =
     (\<forall>k. Suc k < length p \<longrightarrow>
        nearest_unvisited hv cs (p ! k) (set (take (Suc k) p)) (p ! Suc k))"

text \<open>
  The invariant of the inner loop once the indices below \<open>a\<close> are scanned: nothing
  unvisited was met yet, or the accumulator holds the nearest unvisited index below
  \<open>a\<close>, the lowest one at its distance.
\<close>

definition scan_inv ::
  "(coord \<Rightarrow> coord \<Rightarrow> real) \<Rightarrow> coord list \<Rightarrow> coord \<Rightarrow> bool list \<Rightarrow> nat \<Rightarrow>
   real option \<times> int \<Rightarrow> bool" where
  "scan_inv hv cs cur visited a acc =
     ((fst acc = None \<and> snd acc = - 1 \<and> (\<forall>i<a. visited ! i)) \<or>
      (\<exists>j<a. \<not> visited ! j \<and> fst acc = Some (hv cur (cs ! j)) \<and> snd acc = int j \<and>
         (\<forall>i<a. \<not> visited ! i \<longrightarrow>
            hv cur (cs ! j) \<le> hv cur (cs ! i) \<and>
            (hv cur (cs ! i) = hv cur (cs ! j) \<longrightarrow> j \<le> i))))"

text \<open>A profile that breaks the invariant of a user profile, in the words of the spec.\<close>

definition profile_out_of_range :: "profile \<Rightarrow> bool" where
  "profile_out_of_range p =
     ((\<exists>a. p ''idade'' = Some a \<and> (a < 18 \<or> 100 < a)) \<or>
      (\<exists>b. p ''orcamento_max'' = Some b \<and> b \<le> 0) \<or>
      (\<exists>f \<in> set preference_fields. \<exists>v. p f = Some v \<and> (v < 0 \<or> 1 < v)))"

text \<open>
  The contract of \<^verbatim>\<open>DataFrame.sample\<close> without replacement: \<open>n\<close> different positions
  of the frame.
\<close>

definition sample_without_replacement :: "(nat \<Rightarrow> nat \<Rightarrow> nat \<Rightarrow> nat list) \<Rightarrow> bool" where
  "sample_without_replacement sample =
     (\<forall>random_state n m. n \<le> m \<longrightarrow>
        length (sample random_state n m) = n \<and> distinct (sample random_state n m) \<and>
        set (sample random_state n m) \<subseteq> {..<m})"

text \<open>The cells of a location that come from the site, without the cluster label.\<close>

definition site_fields :: "location \<Rightarrow> location" where
  "site_fields loc = filter (\<lambda>kv. fst kv \<noteq> ''cluster'') loc"

text \<open>The limits that the spec sets for a route candidate, with at least one site.\<close>

definition within_limits :: "real \<Rightarrow> nat \<Rightarrow> int \<Rightarrow> route \<Rightarrow> bool" where
  "within_limits budget max_sites max_fragility r =
     (custo_total_aoa r \<le> budget \<and> fragilidade_media r \<le> of_int max_fragility \<and>
      1 \<le> length (locais r) \<and> length (locais r) \<le> max_sites \<and>
      num_locais r = length (locais r) \<and> distinct (map site_fields (locais r)))"

text \<open>
  The pool of scored candidates inside \<^verbatim>\<open>generate_routes\<close>: the value of its
  variable \<^verbatim>\<open>scored_routes\<close>, empty when the function returns early.
\<close>

definition scored_pool ::
  "config \<Rightarrow> (coord \<Rightarrow> coord \<Rightarrow> real) \<Rightarrow> (nat \<Rightarrow> site list \<Rightarrow> nat list option) \<Rightarrow>
   (nat \<Rightarrow> nat \<Rightarrow> nat \<Rightarrow> nat list) \<Rightarrow> ('g \<Rightarrow> nat \<times> 'g) \<Rightarrow>
   site list \<Rightarrow> int option \<Rightarrow> real option \<Rightarrow> 'g \<Rightarrow> route list" where
  "scored_pool cfg hv kmeans sample randint df max_locations max_budget g =
     (if df = [] then []
      else
        (let df_clustered = create_geographic_clusters cfg kmeans df
         in calculate_route_scores (\<lambda>x. py_round x 3) cfg
              (fst (cluster_loop hv sample randint df_clustered
                      (or_default max_locations (default_max_locations cfg))
                      (or_default max_budget (default_max_budget cfg))
                      (unique (map snd df_clustered)) g))))"

section \<open>Example inputs\<close>

text \<open>A stand-in for the distance function that the simplifier can evaluate.\<close>

definition flat_distance :: "coord \<Rightarrow> coord \<Rightarrow> real" where
  "flat_distance a b = \<bar>fst a - fst b\<bar> + \<bar>snd a - snd b\<bar>"

definition line_coords :: "coord list" where
  "line_coords = [(0, 0), (0, 3), (0, 1)]"

definition bad_coords :: "coord list" where
  "bad_coords = [(91, 0), (0, 0)]"

text \<open>The three sites of the test at the end of \<^verbatim>\<open>route_optimizer.py\<close>.\<close>

definition kissama :: site where
  "kissama =
     \<lparr> nome = ''Parque Nacional da Kissama'', provincia = ''Luanda'',
       latitude = - 8.75, longitude = 13.25, fragilidade = 3, capacidade_diaria = 150,
       taxa_aoa = 25000, tipo_ecosistema = ''savana'', descricao = ''Reserva natural'' \<rparr>"

definition kalandula :: site where
  "kalandula =
     \<lparr> nome = ''Cascatas de Kalandula'', provincia = ''Malange'',
       latitude = - 9.0833, longitude = 16.0167, fragilidade = 2, capacidade_diaria = 200,
       taxa_aoa = 15000, tipo_ecosistema = ''floresta'', descricao = ''Cachoeiras'' \<rparr>"

definition iona :: site where
  "iona =
     \<lparr> nome = ''Parque Nacional de Iona'', provincia = ''Namibe'',
       latitude = - 16.75, longitude = 12.25, fragilidade = 4, capacidade_diaria = 100,
       taxa_aoa = 30000, tipo_ecosistema = ''deserto'', descricao = ''Deserto costeiro'' \<rparr>"

definition test_catalog :: "site list" where
  "test_catalog = [kissama, kalandula, iona]"

text \<open>The profile of the test at the end of \<^verbatim>\<open>validators.py\<close>, and the same at age 10.\<close>

definition test_profile :: profile where
  "test_profile =
     map_of [(''idade'', 30), (''orcamento_max'', 20000), (''preferencia_sustentabilidade'', 0.8),
             (''preferencia_aventura'', 0.6), (''preferencia_cultura'', 0.7)]"

definition child_profile :: profile where
  "child_profile = test_profile(''idade'' \<mapsto> 10)"

text \<open>
  An engine with a trained model whose encoders were fitted before the third site, with
  its province and ecosystem, joined the catalog; and the same engine before training.
\<close>

definition stale_engine :: engine where
  "stale_engine =
     \<lparr> engine_df = Some test_catalog,
       rating_model = Some (\<lambda>features. 4.2),
       scaler = (\<lambda>features. features),
       label_encoders = map_of [(''provincia'', [''Luanda'', ''Malange'']),
                                (''ecosistema'', [''floresta'', ''savana''])] \<rparr>"

definition untrained_engine :: engine where
  "untrained_engine = stale_engine\<lparr>rating_model := None\<rparr>"

text \<open>
  A system with the engine enabled, data loaded and no model trained yet. The stand-in
  for training fits a constant model; the stand-in for personalisation asks the rating
  model about the first site and returns the rating as its only route.
\<close>

definition ready_system :: "real system" where
  "ready_system =
     \<lparr> use_ml = True, ml_engine = Some untrained_engine, system_df = Some test_catalog,
       rotas_recomendadas = [] \<rparr>"

definition train_stub :: "engine \<Rightarrow> error option \<times> engine" where
  "train_stub eng = (None, eng\<lparr>rating_model := Some (\<lambda>features. 4.2)\<rparr>)"

definition rate_first_site :: "engine \<Rightarrow> profile \<Rightarrow> real \<Rightarrow> int \<Rightarrow> int \<Rightarrow> error + real list" where
  "rate_first_site eng p budget max_locations num_routes =
     ebind (prever_rating_usuario eng p 0) (\<lambda>rating. Inr [rating])"

text \<open>
  Stand-ins for the library functions: a K-Means that puts every second row into a
  cluster of its own kind, a sample that takes the first positions, and a random source
  that counts.
\<close>

definition kmeans_stub :: "nat \<Rightarrow> site list \<Rightarrow> nat list option" where
  "kmeans_stub k rows = Some (map (\<lambda>i. i mod 2) [0 ..< length rows])"

definition sample_stub :: "nat \<Rightarrow> nat \<Rightarrow> nat \<Rightarrow> nat list" where
  "sample_stub random_state n axis_length = [0 ..< n]"

definition randint_stub :: "nat \<Rightarrow> nat \<times> nat" where
  "randint_stub g = (g mod 1000, Suc g)"

text \<open>A fourth site, for a catalog that is large enough to be clustered.\<close>

definition luando :: site where
  "luando = kalandula\<lparr>nome := ''Reserva do Luando'', latitude := - 11.5, longitude := 17,
                        taxa_aoa := 12000\<rparr>"

definition four_sites :: "site list" where
  "four_sites = [kissama, kalandula, iona, luando]"

text \<open>
  Two clusters of two sites at the same places and prices, the second with a more
  fragile first site.
\<close>

definition pair_low :: "row list" where
  "pair_low = [(kissama, 0), (kalandula, 0)]"

definition pair_high :: "row list" where
  "pair_high = [(kissama\<lparr>fragilidade := 5\<rparr>, 0), (kalandula, 0)]"

section \<open>Properties of the geographic calculator\<close>

lemma validate_coordinates_valid: "validate_coordinates c = Inr () \<longleftrightarrow> coord_valid c"
  by (auto simp: validate_coordinates_def coord_valid_def Let_def)

lemma calculate_distance_valid:
  "coord_valid a \<Longrightarrow> coord_valid b \<Longrightarrow> calculate_distance hv a b = Inr (hv a b)"
  by (simp add: calculate_distance_def validate_coordinates_valid[THEN iffD2])

lemma haversine_sym: "haversine a b = haversine b a"
proof -
  have "sin ((radians (fst b) - radians (fst a)) * 0.5)
          = - sin ((radians (fst a) - radians (fst b)) * 0.5)"
    by (metis minus_diff_eq mult_minus_left sin_minus)
  moreover have "sin ((radians (snd b) - radians (snd a)) * 0.5)
          = - sin ((radians (snd a) - radians (snd b)) * 0.5)"
    by (metis minus_diff_eq mult_minus_left sin_minus)
  ultimately show ?thesis
    by (simp add: haversine_def Let_def mult.commute)
qed

lemma haversine_self: "haversine a a = 0"
  by (simp add: haversine_def Let_def)

text \<open>
  C8. For valid coordinates \<open>a\<close> and \<open>b\<close> (latitude in \<open>[-90, 90]\<close>, longitude in
  \<open>[-180, 180]\<close>), \<^verbatim>\<open>calculate_distance(a, b)\<close> equals \<^verbatim>\<open>calculate_distance(b, a)\<close>, and
  \<^verbatim>\<open>calculate_distance(a, a)\<close> is 0. The distance is the haversine formula over the reals.
\<close>

theorem calculate_distance_symmetric:
  assumes "coord_valid a" "coord_valid b"
  shows "calculate_distance haversine a b = calculate_distance haversine b a \<and>
         calculate_distance haversine a a = Inr 0"
  using assms
  by (simp add: calculate_distance_valid haversine_self haversine_sym[of a b])

theorem calculate_distance_symmetric_witness:
  "coord_valid (- 8.8390, 13.2894) \<and> coord_valid (- 9.0833, 16.0167) \<and>
   calculate_distance haversine (- 8.8390, 13.2894) (- 9.0833, 16.0167)
     = calculate_distance haversine (- 9.0833, 16.0167) (- 8.8390, 13.2894) \<and>
   calculate_distance haversine (- 8.8390, 13.2894) (- 8.8390, 13.2894) = Inr 0"
  using calculate_distance_symmetric[of "(- 8.8390, 13.2894)" "(- 9.0833, 16.0167)"]
  by (simp add: coord_valid_def)

text \<open>
  C10. For a coordinate list of length at most one, \<^verbatim>\<open>nearest_neighbor_route\<close> returns
  exactly \<open>[0]\<close> whatever the start index; for the empty list too, where the index 0
  refers to no input point.
\<close>

theorem nearest_neighbor_route_short:
  "(length coordinates \<le> 1 \<longrightarrow> nearest_neighbor_route hv coordinates start_index = Inr [0]) \<and>
   nearest_neighbor_route hv [] start_index = Inr [0] \<and>
   py_index (length ([] :: coord list)) 0 = None"
  by (simp add: nearest_neighbor_route_def py_index_def)

theorem nearest_neighbor_route_short_witness:
  "length [(1, 2) :: coord] \<le> 1 \<and>
   nearest_neighbor_route flat_distance [(1, 2)] 7 = Inr [0] \<and>
   nearest_neighbor_route flat_distance [] (- 3) = Inr [0]"
  using nearest_neighbor_route_short[of "[(1, 2)]" flat_distance 7]
        nearest_neighbor_route_short[of "[]" flat_distance "- 3"]
  by simp

lemma scan_inv_step_visited:
  "scan_inv hv cs cur visited a acc \<Longrightarrow> visited ! a \<Longrightarrow> scan_inv hv cs cur visited (Suc a) acc"
  unfolding scan_inv_def by (metis less_Suc_eq)

lemma scan_inv_step_better:
  assumes "scan_inv hv cs cur visited a (md, nx)" "\<not> visited ! a" "below (hv cur (cs ! a)) md"
  shows "scan_inv hv cs cur visited (Suc a) (Some (hv cur (cs ! a)), int a)"
proof -
  have "\<forall>i<Suc a. \<not> visited ! i \<longrightarrow>
          hv cur (cs ! a) \<le> hv cur (cs ! i) \<and> (hv cur (cs ! i) = hv cur (cs ! a) \<longrightarrow> a \<le> i)"
  proof (intro allI impI)
    fix i assume i: "i < Suc a" "\<not> visited ! i"
    show "hv cur (cs ! a) \<le> hv cur (cs ! i) \<and> (hv cur (cs ! i) = hv cur (cs ! a) \<longrightarrow> a \<le> i)"
    proof (cases "i = a")
      case True
      then show ?thesis by simp
    next
      case False
      with i have ia: "i < a" by simp
      from assms(1) ia i(2) obtain j where
        "md = Some (hv cur (cs ! j))" "hv cur (cs ! j) \<le> hv cur (cs ! i)"
        unfolding scan_inv_def by auto
      with assms(3) show ?thesis by auto
    qed
  qed
  with assms(2) show ?thesis unfolding scan_inv_def by auto
qed

lemma scan_inv_step_worse:
  assumes "scan_inv hv cs cur visited a (md, nx)" "\<not> visited ! a" "\<not> below (hv cur (cs ! a)) md"
  shows "scan_inv hv cs cur visited (Suc a) (md, nx)"
proof -
  from assms(3) obtain m where m: "md = Some m" "m \<le> hv cur (cs ! a)"
    by (cases md) auto
  with assms(1) obtain j where j: "j < a" "\<not> visited ! j" "md = Some (hv cur (cs ! j))" "nx = int j"
    "\<forall>i<a. \<not> visited ! i \<longrightarrow>
       hv cur (cs ! j) \<le> hv cur (cs ! i) \<and> (hv cur (cs ! i) = hv cur (cs ! j) \<longrightarrow> j \<le> i)"
    unfolding scan_inv_def by auto
  have "\<forall>i<Suc a. \<not> visited ! i \<longrightarrow>
          hv cur (cs ! j) \<le> hv cur (cs ! i) \<and> (hv cur (cs ! i) = hv cur (cs ! j) \<longrightarrow> j \<le> i)"
    using j m by (auto simp: less_Suc_eq)
  with j show ?thesis unfolding scan_inv_def by auto
qed

lemma scan_nearest_inv:
  assumes "coords_valid cs" "coord_valid cur" "b \<le> length cs"
  shows "a \<le> b \<Longrightarrow> scan_inv hv cs cur visited a acc \<Longrightarrow>
         \<exists>acc'. scan_nearest hv cs cur visited [a ..< b] acc = Inr acc' \<and>
                scan_inv hv cs cur visited b acc'"
proof (induction "b - a" arbitrary: a acc)
  case 0
  then show ?case by simp
next
  case (Suc d)
  then have ab: "a < b" and d: "d = b - Suc a" by auto
  obtain md nx where acc: "acc = (md, nx)" by (cases acc)
  have va: "coord_valid (cs ! a)"
    using assms(1,3) ab by (simp add: coords_valid_def list_all_length)
  have cd: "calculate_distance hv cur (cs ! a) = Inr (hv cur (cs ! a))"
    by (rule calculate_distance_valid[OF assms(2) va])
  have up: "[a ..< b] = a # [Suc a ..< b]" using ab by (simp add: upt_conv_Cons)
  show ?case
  proof (cases "visited ! a")
    case True
    from Suc.hyps(1)[OF d _ scan_inv_step_visited[OF Suc.prems(2) True]] ab
    show ?thesis by (simp add: up acc True)
  next
    case False
    show ?thesis
    proof (cases "below (hv cur (cs ! a)) md")
      case True
      from Suc.hyps(1)[OF d _ scan_inv_step_better[OF Suc.prems(2)[unfolded acc] False True]] ab
      show ?thesis by (simp add: up acc False True cd)
    next
      case nb: False
      from Suc.hyps(1)[OF d _ scan_inv_step_worse[OF Suc.prems(2)[unfolded acc] False nb]] ab
      show ?thesis by (simp add: up acc False nb cd)
    qed
  qed
qed

lemma greedy_tour_snoc:
  assumes "greedy_tour hv cs p" "p \<noteq> []" "nearest_unvisited hv cs (last p) (set p) j"
  shows "greedy_tour hv cs (p @ [j])"
  unfolding greedy_tour_def
proof (intro allI impI)
  fix k assume k: "Suc k < length (p @ [j])"
  show "nearest_unvisited hv cs ((p @ [j]) ! k) (set (take (Suc k) (p @ [j]))) ((p @ [j]) ! Suc k)"
  proof (cases "Suc k < length p")
    case True
    then show ?thesis using assms(1) by (simp add: greedy_tour_def nth_append)
  next
    case False
    with k have e: "Suc k = length p" by simp
    then have "k = length p - 1" by simp
    then have "(p @ [j]) ! k = last p" using assms(2) by (simp add: nth_append last_conv_nth)
    moreover have "(p @ [j]) ! Suc k = j" using e by (simp add: nth_append)
    moreover have "take (Suc k) (p @ [j]) = p" using e by simp
    ultimately show ?thesis using assms(3) by simp
  qed
qed

lemma exists_unvisited:
  assumes "distinct p" "set p \<subseteq> {..<n}" "length p < n"
  shows "\<exists>i<n. i \<notin> set p"
proof (rule ccontr)
  assume "\<not> (\<exists>i<n. i \<notin> set p)"
  then have "{..<n} \<subseteq> set p" by auto
  then have "card {..<n} \<le> card (set p)" by (intro card_mono) auto
  then show False using assms(1,3) by (simp add: distinct_card)
qed

lemma py_index_nat: "i < n \<Longrightarrow> py_index n (int i) = Some i"
  by (simp add: py_index_def)

lemma nn_loop_greedy:
  assumes cv: "coords_valid cs"
  shows "p \<noteq> [] \<Longrightarrow> distinct p \<Longrightarrow> set p \<subseteq> {..<length cs} \<Longrightarrow> length visited = length cs \<Longrightarrow>
         (\<forall>i<length cs. visited ! i \<longleftrightarrow> i \<in> set p) \<Longrightarrow> greedy_tour hv cs p \<Longrightarrow>
         k + length p = length cs \<Longrightarrow>
         \<exists>q. nn_loop hv cs k visited (map int p) (int (last p)) = Inr (map int q) \<and>
             distinct q \<and> set q \<subseteq> {..<length cs} \<and> length q = length cs \<and>
             greedy_tour hv cs q \<and> hd q = hd p"
proof (induction k arbitrary: p visited)
  case 0
  then show ?case by auto
next
  case (Suc k)
  let ?n = "length cs"
  let ?c = "last p"
  have c: "?c < ?n" using Suc.prems(1,3) last_in_set by blast
  have vc: "coord_valid (cs ! ?c)"
    using cv c by (simp add: coords_valid_def list_all_length)
  have inv0: "scan_inv hv cs (cs ! ?c) visited 0 (None, - 1)"
    by (simp add: scan_inv_def)
  from scan_nearest_inv[OF cv vc order_refl _ inv0]
  obtain acc' where acc': "scan_nearest hv cs (cs ! ?c) visited [0 ..< ?n] (None, - 1) = Inr acc'"
    and inv: "scan_inv hv cs (cs ! ?c) visited ?n acc'" by auto
  from exists_unvisited[OF Suc.prems(2,3)] Suc.prems(7)
  obtain u where u: "u < ?n" "u \<notin> set p" by auto
  then have "\<not> visited ! u" using Suc.prems(5) by simp
  with inv u(1) obtain j where j: "j < ?n" "\<not> visited ! j" "snd acc' = int j"
    and jmin: "\<forall>i<?n. \<not> visited ! i \<longrightarrow>
            hv (cs ! ?c) (cs ! j) \<le> hv (cs ! ?c) (cs ! i) \<and>
            (hv (cs ! ?c) (cs ! i) = hv (cs ! ?c) (cs ! j) \<longrightarrow> j \<le> i)"
    unfolding scan_inv_def by auto
  have jp: "j \<notin> set p" using j Suc.prems(5) by simp
  have near: "nearest_unvisited hv cs ?c (set p) j"
    unfolding nearest_unvisited_def using j(1) jp jmin Suc.prems(5) by simp
  let ?p' = "p @ [j]"
  let ?v' = "visited[j := True]"
  have 1: "?p' \<noteq> []" by simp
  have 2: "distinct ?p'" using Suc.prems(2) jp by simp
  have 3: "set ?p' \<subseteq> {..<?n}" using Suc.prems(3) j(1) by simp
  have 4: "length ?v' = ?n" using Suc.prems(4) by simp
  have 5: "\<forall>i<?n. ?v' ! i \<longleftrightarrow> i \<in> set ?p'"
    using Suc.prems(4,5) j(1) by (auto simp: nth_list_update)
  have 6: "greedy_tour hv cs ?p'" by (rule greedy_tour_snoc[OF Suc.prems(6,1) near])
  have 7: "k + length ?p' = ?n" using Suc.prems(7) by simp
  from Suc.IH[OF 1 2 3 4 5 6 7]
  obtain q where q: "nn_loop hv cs k ?v' (map int ?p') (int (last ?p')) = Inr (map int q)"
    "distinct q" "set q \<subseteq> {..<?n}" "length q = ?n" "greedy_tour hv cs q" "hd q = hd ?p'"
    by blast
  have hdq: "hd q = hd p" using q(6) Suc.prems(1) by simp
  obtain md where accd: "acc' = (md, int j)" using j(3) by (cases acc') simp
  have "nn_loop hv cs (Suc k) visited (map int p) (int ?c) = Inr (map int q)"
    using q(1) by (simp add: py_index_nat[OF c] acc' accd)
  with q hdq show ?case by blast
qed

lemma full_distinct_range:
  assumes "distinct q" "set q \<subseteq> {..<n}" "length q = n"
  shows "set q = {..<n}"
proof -
  have "card (set q) = card {..<n}" using assms(1,3) by (simp add: distinct_card)
  then show ?thesis using assms(2) by (simp add: card_subset_eq)
qed

text \<open>The tour on valid coordinates, from a start index in range.\<close>

lemma nearest_neighbor_route_tour:
  assumes "coords_valid cs" "s < length cs"
  shows "\<exists>p. nearest_neighbor_route hv cs (int s) = Inr (map int p) \<and> distinct p \<and>
             set p = {..<length cs} \<and> length p = length cs \<and> hd p = s \<and> greedy_tour hv cs p"
proof (cases "length cs \<le> 1")
  case True
  with assms(2) have "length cs = 1" "s = 0" by auto
  then have "nearest_neighbor_route hv cs (int s) = Inr (map int [0])" "set [0::nat] = {..<length cs}"
    by (auto simp: nearest_neighbor_route_def)
  moreover have "greedy_tour hv cs [0]" by (simp add: greedy_tour_def)
  ultimately show ?thesis using \<open>length cs = 1\<close> \<open>s = 0\<close>
    by (intro exI[of _ "[0]"]) simp
next
  case False
  let ?n = "length cs"
  let ?v = "(replicate ?n False)[s := True]"
  have "\<exists>q. nn_loop hv cs (?n - 1) ?v (map int [s]) (int (last [s])) = Inr (map int q) \<and>
             distinct q \<and> set q \<subseteq> {..<?n} \<and> length q = ?n \<and>
             greedy_tour hv cs q \<and> hd q = hd [s]"
  proof (rule nn_loop_greedy[OF assms(1)])
    show "\<forall>i<?n. ?v ! i \<longleftrightarrow> i \<in> set [s]"
      using assms(2) by (auto simp: nth_list_update)
    show "greedy_tour hv cs [s]" by (simp add: greedy_tour_def)
    show "?n - 1 + length [s] = ?n" using assms(2) by simp
  qed (use assms(2) in auto)
  then obtain q where q: "nn_loop hv cs (?n - 1) ?v [int s] (int s) = Inr (map int q)"
    "distinct q" "set q \<subseteq> {..<?n}" "length q = ?n" "greedy_tour hv cs q" "hd q = s"
    by auto
  have "nearest_neighbor_route hv cs (int s) = Inr (map int q)"
    using False q(1) by (simp add: nearest_neighbor_route_def py_index_nat[OF assms(2)])
  with q full_distinct_range[OF q(2,3,4)] show ?thesis by blast
qed

text \<open>
  C2, amended. For every list of \<open>n\<close> valid coordinates and every start index in
  \<open>[0, n)\<close>, \<^verbatim>\<open>nearest_neighbor_route\<close> returns a permutation of the indices \<open>0..n-1\<close>
  with no repeats, which begins at the start index and at each step visits the unvisited
  point of minimum distance to the current point, the lowest index among equals.
\<close>

theorem nearest_neighbor_route_greedy_permutation:
  assumes "coords_valid cs" "0 \<le> start_index" "start_index < int (length cs)"
  shows "\<exists>p. nearest_neighbor_route hv cs start_index = Inr (map int p) \<and>
             distinct p \<and> set p = {..<length cs} \<and> hd p = nat start_index \<and>
             greedy_tour hv cs p"
proof -
  from assms(2,3) have "nat start_index < length cs" "int (nat start_index) = start_index"
    by auto
  with nearest_neighbor_route_tour[OF assms(1), of "nat start_index" hv] show ?thesis
    by auto
qed

theorem nearest_neighbor_route_greedy_permutation_witness:
  "coords_valid line_coords \<and> (0::int) \<le> 0 \<and> 0 < int (length line_coords) \<and>
   (\<exists>p. nearest_neighbor_route flat_distance line_coords 0 = Inr (map int p) \<and>
        distinct p \<and> set p = {..<length line_coords} \<and> hd p = nat 0 \<and>
        greedy_tour flat_distance line_coords p)"
  using nearest_neighbor_route_greedy_permutation[of line_coords 0 flat_distance]
  by (simp add: line_coords_def coords_valid_def coord_valid_def)

text \<open>
  The claim C2 as stated, for every list of coordinates, fails where a coordinate is out
  of range: the call raises instead of returning a permutation.
\<close>

theorem nearest_neighbor_route_invalid_coordinate:
  "nearest_neighbor_route flat_distance bad_coords 0 = Inl (InvalidLatitude 91)"
  by (simp add: nearest_neighbor_route_def bad_coords_def py_index_def upt_conv_Cons
      calculate_distance_def validate_coordinates_def)

lemma nearest_neighbor_route_line:
  "nearest_neighbor_route flat_distance line_coords 0 = Inr [0, 2, 1]"
  by (simp add: nearest_neighbor_route_def line_coords_def py_index_def upt_conv_Cons
      calculate_distance_def validate_coordinates_def flat_distance_def numeral_3_eq_3)

text \<open>With two or more points, one coordinate out of range is enough for the call to raise.\<close>

lemma scan_nearest_raises:
  "\<exists>i \<in> set todo. \<not> visited ! i \<and> (\<exists>e. calculate_distance hv cur (cs ! i) = Inl e) \<Longrightarrow>
   \<exists>e. scan_nearest hv cs cur visited todo acc = Inl e"
proof (induction todo arbitrary: acc)
  case Nil
  then show ?case by simp
next
  case (Cons i todo)
  obtain md nx where acc: "acc = (md, nx)" by (cases acc)
  show ?case
  proof (cases "visited ! i")
    case True
    with Cons.prems have "\<exists>i \<in> set todo. \<not> visited ! i \<and> (\<exists>e. calculate_distance hv cur (cs ! i) = Inl e)"
      by auto
    from Cons.IH[OF this] True show ?thesis by (simp add: acc)
  next
    case False
    show ?thesis
    proof (cases "calculate_distance hv cur (cs ! i)")
      case (Inl e)
      with False show ?thesis by (simp add: acc)
    next
      case (Inr d)
      with Cons.prems have "\<exists>i \<in> set todo. \<not> visited ! i \<and> (\<exists>e. calculate_distance hv cur (cs ! i) = Inl e)"
        by auto
      from Cons.IH[OF this] False Inr show ?thesis by (simp add: acc)
    qed
  qed
qed

lemma calculate_distance_invalid:
  "\<not> coord_valid a \<or> \<not> coord_valid b \<Longrightarrow> \<exists>e. calculate_distance hv a b = Inl e"
  by (auto simp: calculate_distance_def validate_coordinates_def coord_valid_def Let_def
      split: sum.splits)

lemma nearest_neighbor_route_raises:
  assumes "2 \<le> length cs" "\<not> coords_valid cs" "s < length cs"
  shows "\<exists>e. nearest_neighbor_route hv cs (int s) = Inl e"
proof -
  let ?n = "length cs"
  let ?v = "(replicate ?n False)[s := True]"
  from assms(2) obtain j where j: "j < ?n" "\<not> coord_valid (cs ! j)"
    by (auto simp: coords_valid_def list_all_length)
  obtain i where i: "i < ?n" "i \<noteq> s" "\<not> coord_valid (cs ! s) \<or> \<not> coord_valid (cs ! i)"
  proof (cases "j = s")
    case True
    obtain i where "i < ?n" "i \<noteq> s" using assms(1) by (cases "s = 0") (auto intro: that[of 0] that[of 1])
    with True j that show ?thesis by blast
  next
    case False
    with j that show ?thesis by blast
  qed
  have "\<not> ?v ! i" using i(1,2) by (simp add: nth_list_update)
  moreover have "\<exists>e. calculate_distance hv (cs ! s) (cs ! i) = Inl e"
    using i(3) by (rule calculate_distance_invalid)
  moreover have "i \<in> set [0 ..< ?n]" using i(1) by simp
  ultimately have "\<exists>e. scan_nearest hv cs (cs ! s) ?v [0 ..< ?n] (None, - 1) = Inl e"
    by (intro scan_nearest_raises) blast
  then obtain e where "scan_nearest hv cs (cs ! s) ?v [0 ..< ?n] (None, - 1) = Inl e" by blast
  moreover obtain k where "?n - 1 = Suc k" using assms(1) by (cases "?n - 1") auto
  ultimately have "nn_loop hv cs (?n - 1) ?v [int s] (int s) = Inl e"
    by (simp add: py_index_nat[OF assms(3)])
  then show ?thesis
    using assms(1) by (simp add: nearest_neighbor_route_def py_index_nat[OF assms(3)])
qed

section \<open>Properties of rounding\<close>

lemma round_half_even_bounds:
  "x - 1 / 2 \<le> of_int (round_half_even x) \<and> of_int (round_half_even x) \<le> x + 1 / 2"
proof -
  have fl: "of_int \<lfloor>x\<rfloor> \<le> x" "x < of_int \<lfloor>x\<rfloor> + 1" by linarith+
  consider "x - of_int \<lfloor>x\<rfloor> < 1 / 2" | "x - of_int \<lfloor>x\<rfloor> > 1 / 2"
    | "x - of_int \<lfloor>x\<rfloor> = 1 / 2" by linarith
  then show ?thesis
  proof cases
    case 1
    then have "round_half_even x = \<lfloor>x\<rfloor>" by (simp add: round_half_even_def)
    then show ?thesis using fl 1 by linarith
  next
    case 2
    then have "round_half_even x = \<lfloor>x\<rfloor> + 1" by (simp add: round_half_even_def)
    then show ?thesis using fl 2 by linarith
  next
    case 3
    then have "round_half_even x = \<lfloor>x\<rfloor> \<or> round_half_even x = \<lfloor>x\<rfloor> + 1"
      by (simp add: round_half_even_def Let_def)
    then show ?thesis using fl 3 by linarith
  qed
qed

lemma round_half_even_of_int: "round_half_even (of_int m) = m"
  by (simp add: round_half_even_def)

lemma round_half_even_mono:
  assumes "x \<le> y"
  shows "round_half_even x \<le> round_half_even y"
proof (rule ccontr)
  assume "\<not> round_half_even x \<le> round_half_even y"
  then have "round_half_even y + 1 \<le> round_half_even x" by simp
  then have "(of_int (round_half_even y) :: real) + 1 \<le> of_int (round_half_even x)"
    by (metis of_int_1 of_int_add of_int_le_iff)
  with round_half_even_bounds[of x] round_half_even_bounds[of y] assms
  have "x = y" by linarith
  with \<open>\<not> round_half_even x \<le> round_half_even y\<close> show False by simp
qed

lemma py_round_mono: "x \<le> y \<Longrightarrow> py_round x k \<le> py_round y k"
  by (simp add: py_round_def divide_right_mono round_half_even_mono mult_right_mono)

lemma py_round_of_int: "py_round (of_int m) k = of_int m"
proof -
  have "(of_int m :: real) * 10 ^ k = of_int (m * 10 ^ k)" by simp
  then have "round_half_even (of_int m * 10 ^ k) = m * 10 ^ k"
    by (simp only: round_half_even_of_int)
  then show ?thesis by (simp add: py_round_def)
qed

lemma py_round_bounds:
  "x - 1 / (2 * 10 ^ k) \<le> py_round x k \<and> py_round x k \<le> x + 1 / (2 * 10 ^ k)"
proof -
  let ?t = "(10::real) ^ k"
  have t: "0 < ?t" by simp
  from round_half_even_bounds[of "x * ?t"]
  have "(x * ?t - 1 / 2) / ?t \<le> py_round x k" "py_round x k \<le> (x * ?t + 1 / 2) / ?t"
    using t by (simp_all add: py_round_def divide_right_mono)
  moreover have "(x * ?t - 1 / 2) / ?t = x - 1 / (2 * ?t)" "(x * ?t + 1 / 2) / ?t = x + 1 / (2 * ?t)"
    using t by (simp_all add: field_simps)
  ultimately show ?thesis by simp
qed

lemma py_round_hundredth: "\<exists>k::int. py_round x 2 = of_int k / 100"
  by (simp add: py_round_def)

section \<open>Properties of rating prediction\<close>

lemma index_of_None: "index_of cs x = None \<longleftrightarrow> x \<notin> set cs"
  by (induction cs) auto

lemma transform_unseen: "x \<notin> set cs \<Longrightarrow> transform cs x = Inl (UnseenLabel x)"
  by (simp add: transform_def index_of_None[THEN iffD2])

lemma transform_seen: "x \<in> set cs \<Longrightarrow> \<exists>k. transform cs x = Inr k"
  by (cases "index_of cs x") (auto simp: transform_def index_of_None)

text \<open>
  C4, amended. For every user profile and every site whose province or ecosystem
  category was never seen during encoder fitting, \<^verbatim>\<open>prever_rating_usuario\<close> returns the
  neutral rating 3.0 while no rating model is trained; with a trained model the error of
  the encoder for the unseen label reaches the caller.
\<close>

theorem prever_rating_usuario_unseen:
  assumes "engine_df eng = Some rows"
    and "py_index (length rows) local_id = Some k"
    and "list_all (\<lambda>f. user_profile f \<noteq> None) required_fields"
    and "label_encoders eng ''ecosistema'' = Some le_ecosistema"
    and "label_encoders eng ''provincia'' = Some le_provincia"
    and "tipo_ecosistema (rows ! k) \<notin> set le_ecosistema \<or> provincia (rows ! k) \<notin> set le_provincia"
  shows "(rating_model eng = None \<longrightarrow> prever_rating_usuario eng user_profile local_id = Inr 3) \<and>
         (rating_model eng \<noteq> None \<longrightarrow>
            prever_rating_usuario eng user_profile local_id =
              Inl (UnseenLabel (if tipo_ecosistema (rows ! k) \<notin> set le_ecosistema
                                then tipo_ecosistema (rows ! k) else provincia (rows ! k))))"
proof (intro conjI impI)
  assume "rating_model eng = None"
  then show "prever_rating_usuario eng user_profile local_id = Inr 3"
    by (simp add: prever_rating_usuario_def)
next
  assume "rating_model eng \<noteq> None"
  then obtain predict where m: "rating_model eng = Some predict" by auto
  from assms(3) obtain a b c d e where
    p: "user_profile ''idade'' = Some a" "user_profile ''orcamento_max'' = Some b"
       "user_profile ''preferencia_sustentabilidade'' = Some c"
       "user_profile ''preferencia_aventura'' = Some d"
       "user_profile ''preferencia_cultura'' = Some e"
    by (auto simp: required_fields_def)
  have start: "prever_rating_usuario eng user_profile local_id =
      ebind (transform le_ecosistema (tipo_ecosistema (rows ! k))) (\<lambda>ecosistema_encoded.
      ebind (transform le_provincia (provincia (rows ! k))) (\<lambda>provincia_encoded.
        Inr (clip (predict (scaler eng [a, b, c, d, e, real_of_int (fragilidade (rows ! k)),
               taxa_aoa (rows ! k), ecosistema_encoded, provincia_encoded])) 1 5)))"
    by (simp add: prever_rating_usuario_def m iloc_def assms(1,2,4,5) p getitem_def ebind_def)
  show "prever_rating_usuario eng user_profile local_id =
              Inl (UnseenLabel (if tipo_ecosistema (rows ! k) \<notin> set le_ecosistema
                                then tipo_ecosistema (rows ! k) else provincia (rows ! k)))"
  proof (cases "tipo_ecosistema (rows ! k) \<in> set le_ecosistema")
    case True
    with assms(6) have "provincia (rows ! k) \<notin> set le_provincia" by simp
    with transform_seen[OF True] True show ?thesis
      by (auto simp: start ebind_def transform_unseen)
  next
    case False
    then show ?thesis by (simp add: start ebind_def transform_unseen)
  qed
qed

theorem prever_rating_usuario_unseen_witness:
  "engine_df stale_engine = Some test_catalog \<and>
   py_index (length test_catalog) 2 = Some 2 \<and>
   list_all (\<lambda>f. test_profile f \<noteq> None) required_fields \<and>
   label_encoders stale_engine ''ecosistema'' = Some [''floresta'', ''savana''] \<and>
   label_encoders stale_engine ''provincia'' = Some [''Luanda'', ''Malange''] \<and>
   tipo_ecosistema (test_catalog ! 2) \<notin> set [''floresta'', ''savana''] \<and>
   rating_model stale_engine \<noteq> None \<and>
   prever_rating_usuario stale_engine test_profile 2 = Inl (UnseenLabel ''deserto'') \<and>
   rating_model untrained_engine = None \<and>
   prever_rating_usuario untrained_engine test_profile 2 = Inr 3"
proof -
  have df: "engine_df stale_engine = Some test_catalog" "engine_df untrained_engine = Some test_catalog"
    by (simp_all add: stale_engine_def untrained_engine_def)
  have ix: "py_index (length test_catalog) 2 = Some 2"
    by (simp add: py_index_def test_catalog_def)
  have pf: "list_all (\<lambda>f. test_profile f \<noteq> None) required_fields"
    by (simp add: test_profile_def required_fields_def del: not_None_eq)
  have le: "label_encoders stale_engine ''ecosistema'' = Some [''floresta'', ''savana'']"
      "label_encoders untrained_engine ''ecosistema'' = Some [''floresta'', ''savana'']"
    by (simp_all add: stale_engine_def untrained_engine_def)
  have lp: "label_encoders stale_engine ''provincia'' = Some [''Luanda'', ''Malange'']"
      "label_encoders untrained_engine ''provincia'' = Some [''Luanda'', ''Malange'']"
    by (simp_all add: stale_engine_def untrained_engine_def)
  have eco: "tipo_ecosistema (test_catalog ! 2) = ''deserto''"
    by (simp add: test_catalog_def iona_def)
  have un: "tipo_ecosistema (test_catalog ! 2) \<notin> set [''floresta'', ''savana'']"
    by (simp add: eco)
  have m: "rating_model stale_engine \<noteq> None" "rating_model untrained_engine = None"
    by (simp_all add: stale_engine_def untrained_engine_def)
  from prever_rating_usuario_unseen[OF df(1) ix pf le(1) lp(1) disjI1[OF un]]
       prever_rating_usuario_unseen[OF df(2) ix pf le(2) lp(2) disjI1[OF un]]
  show ?thesis using df(1) ix pf le(1) lp(1) un m by (simp add: eco)
qed

text \<open>
  The claim C4 as stated, a fall-back to 3.0 instead of an error, fails on a trained
  engine: the unseen ecosystem of the third site raises.
\<close>

theorem prever_rating_usuario_raises:
  "prever_rating_usuario stale_engine test_profile 2 = Inl (UnseenLabel ''deserto'')"
  by (simp add: prever_rating_usuario_def stale_engine_def test_catalog_def test_profile_def
      iloc_def py_index_def getitem_def ebind_def transform_def iona_def)

section \<open>Properties of personalised route generation\<close>

lemma out_of_range_invalid:
  assumes "profile_out_of_range p"
  shows "\<not> validate_user_profile p"
proof (cases "list_ex (\<lambda>f. p f = None) required_fields")
  case True
  then show ?thesis by (simp add: validate_user_profile_def)
next
  case False
  from assms consider
      a where "p ''idade'' = Some a" "a < 18 \<or> 100 < a"
    | b where "p ''orcamento_max'' = Some b" "b \<le> 0"
    | f v where "f \<in> set preference_fields" "p f = Some v" "v < 0 \<or> 1 < v"
    unfolding profile_out_of_range_def by blast
  then show ?thesis
  proof cases
    case 1
    then show ?thesis by (auto simp: validate_user_profile_def)
  next
    case 2
    then show ?thesis by (auto simp: validate_user_profile_def)
  next
    case 3
    then have "\<not> (0 \<le> the (p f) \<and> the (p f) \<le> 1)" by auto
    with 3(1) have "\<not> list_all (\<lambda>f. 0 \<le> the (p f) \<and> the (p f) \<le> 1) preference_fields"
      unfolding list_all_iff by blast
    then show ?thesis by (simp add: validate_user_profile_def)
  qed
qed

lemma child_profile_invalid: "\<not> validate_user_profile child_profile"
  by (rule out_of_range_invalid) (simp add: profile_out_of_range_def child_profile_def)

text \<open>
  On a system with the engine enabled and data loaded, the call trains an untrained
  engine and hands the profile to the personalisation, whatever the profile holds.
\<close>

lemma gerar_rotas_personalizadas_ml_untrained:
  assumes "use_ml sys" "ml_engine sys = Some eng" "system_df sys \<noteq> None"
    and "rating_model eng = None" "train eng = (None, eng')"
  shows "gerar_rotas_personalizadas_ml train personalize sys p orcamento_max max_locais num_rotas =
           (case personalize eng' p orcamento_max max_locais num_rotas of
              Inl e \<Rightarrow> (Inl e, sys\<lparr>ml_engine := Some eng'\<rparr>)
            | Inr rotas \<Rightarrow> (Inr rotas, sys\<lparr>ml_engine := Some eng', rotas_recomendadas := rotas\<rparr>))"
  using assms by (auto simp: gerar_rotas_personalizadas_ml_def)

text \<open>
  C5. The claim is that a profile whose age is outside \<open>[18, 100]\<close>, for example age 10,
  makes personalised route generation raise an invalid-profile error before the rating
  model is invoked, leaving the model and the stored state untouched.
  \<^verbatim>\<open>gerar_rotas_personalizadas_ml\<close> does not: with the profile of age 10, which
  \<^verbatim>\<open>validate_user_profile\<close> rejects, it trains the engine, has the rating model rate
  for that profile, returns the routes and stores them.
\<close>

theorem gerar_rotas_personalizadas_ml_child_profile:
  "child_profile ''idade'' = Some 10 \<and> \<not> validate_user_profile child_profile \<and>
   rating_model (snd (train_stub untrained_engine)) \<noteq> None \<and>
   gerar_rotas_personalizadas_ml train_stub rate_first_site ready_system child_profile 20000 6 5
     = (Inr [4.2],
        ready_system\<lparr>ml_engine := Some (snd (train_stub untrained_engine)),
                      rotas_recomendadas := [4.2]\<rparr>)"
proof -
  have "prever_rating_usuario (snd (train_stub untrained_engine)) child_profile 0 = Inr 4.2"
    by (simp add: prever_rating_usuario_def train_stub_def untrained_engine_def stale_engine_def
        test_catalog_def child_profile_def test_profile_def iloc_def py_index_def getitem_def
        ebind_def transform_def kissama_def clip_def)
  then have "rate_first_site (snd (train_stub untrained_engine)) child_profile 20000 6 5 = Inr [4.2]"
    by (simp add: rate_first_site_def ebind_def)
  moreover have "train_stub untrained_engine = (None, snd (train_stub untrained_engine))"
    by (simp add: train_stub_def)
  ultimately have
    "gerar_rotas_personalizadas_ml train_stub rate_first_site ready_system child_profile 20000 6 5
       = (Inr [4.2],
          ready_system\<lparr>ml_engine := Some (snd (train_stub untrained_engine)),
                        rotas_recomendadas := [4.2]\<rparr>)"
    using gerar_rotas_personalizadas_ml_untrained[of ready_system untrained_engine train_stub
        "snd (train_stub untrained_engine)" rate_first_site child_profile 20000 6 5]
    by (simp add: ready_system_def untrained_engine_def)
  moreover have "child_profile ''idade'' = Some 10" by (simp add: child_profile_def)
  moreover have "rating_model (snd (train_stub untrained_engine)) \<noteq> None"
    by (simp add: train_stub_def)
  ultimately show ?thesis using child_profile_invalid by simp
qed

section \<open>Properties of the route optimizer\<close>


lemma pick_nat:
  "set p \<subseteq> {..<length xs} \<Longrightarrow> pick xs (map int p) = Some (map ((!) xs) p)"
  by (induction p) (auto simp: py_index_nat)

lemma calculate_route_distance_valid:
  "coords_valid cs \<Longrightarrow> set p \<subseteq> {..<length cs} \<Longrightarrow>
   \<exists>d. calculate_route_distance hv cs (map int p) = Inr d"
proof (induction p rule: induct_list012)
  case (3 i j rest)
  then have ij: "i < length cs" "j < length cs" by auto
  then have "coord_valid (cs ! i)" "coord_valid (cs ! j)"
    using 3(3) by (simp_all add: coords_valid_def list_all_length)
  moreover from 3 obtain d where "calculate_route_distance hv cs (map int (j # rest)) = Inr d"
    by auto
  ultimately show ?case
    using ij by (simp add: py_index_nat calculate_distance_valid)
qed simp_all

lemma permuted_rows_mset:
  assumes "distinct p" "set p = {..<length xs}"
  shows "mset (map ((!) xs) p) = mset xs"
proof -
  have "mset p = mset [0 ..< length xs]"
    using assms by (intro set_eq_iff_mset_eq_distinct[THEN iffD1]) (auto simp: lessThan_atLeast0)
  then have "mset (map ((!) xs) p) = mset (map ((!) xs) [0 ..< length xs])"
    by (metis mset_map)
  then show ?thesis by (simp add: map_nth)
qed

lemma permuted_rows_sum:
  fixes f :: "'a \<Rightarrow> 'b::comm_monoid_add"
  assumes "distinct p" "set p = {..<length xs}"
  shows "sum_list (map f (map ((!) xs) p)) = sum_list (map f xs)"
proof -
  have "mset (map f (map ((!) xs) p)) = mset (map f xs)"
    using permuted_rows_mset[OF assms] by (metis mset_map)
  then show ?thesis by (metis sum_mset_sum_list)
qed

lemma create_route_from_locations_Some:
  assumes "rows \<noteq> []" "coords_valid (map site_coord rows)"
    and "sum_list (map (\<lambda>r. taxa_aoa (fst r)) rows) \<le> max_budget"
  shows "\<exists>p r. nearest_neighbor_route hv (map site_coord rows) 0 = Inr (map int p) \<and>
           distinct p \<and> set p = {..<length rows} \<and> hd p = 0 \<and>
           greedy_tour hv (map site_coord rows) p \<and>
           create_route_from_locations hv rows max_budget = Some r \<and>
           locais r = map (\<lambda>i. to_dict (rows ! i)) p \<and>
           num_locais r = length rows \<and>
           custo_total_aoa r = sum_list (map (\<lambda>r. taxa_aoa (fst r)) rows) \<and>
           fragilidade_media r =
             py_round (real_of_int (sum_list (map (\<lambda>r. fragilidade (fst r)) rows)) / real (length rows)) 2 \<and>
           score r = None"
proof -
  let ?cs = "map site_coord rows"
  have "0 < length ?cs" using assms(1) by simp
  from nearest_neighbor_route_tour[OF assms(2) this, of hv]
  obtain p where p: "nearest_neighbor_route hv ?cs 0 = Inr (map int p)" "distinct p"
    "set p = {..<length rows}" "length p = length rows" "hd p = 0" "greedy_tour hv ?cs p"
    by auto
  let ?opt = "map ((!) rows) p"
  have pk: "pick rows (map int p) = Some ?opt" using p(3) by (simp add: pick_nat)
  have "coords_valid (map site_coord ?opt)"
    using assms(2) p(3) by (auto simp: coords_valid_def list_all_iff)
  moreover have "set [0 ..< length ?opt] \<subseteq> {..<length (map site_coord ?opt)}" by auto
  ultimately obtain d where
    d: "calculate_route_distance hv (map site_coord ?opt) (map int [0 ..< length ?opt]) = Inr d"
    using calculate_route_distance_valid by blast
  have fr: "sum_list (map (\<lambda>r. fragilidade (fst r)) ?opt) = sum_list (map (\<lambda>r. fragilidade (fst r)) rows)"
    by (rule permuted_rows_sum[OF p(2,3)])
  have len: "length ?opt = length rows" using p(4) by simp
  define r where "r = \<lparr> rota_nome = ''Rota Cluster '' @ str_nat (snd (hd rows) + 1) @ '' - ''
                                @ str_nat (length ?opt) @ '' locais'',
                            locais = map to_dict ?opt,
                            num_locais = length ?opt,
                            distancia_total_km = py_round d 2,
                            custo_total_aoa = sum_list (map (\<lambda>r. taxa_aoa (fst r)) rows),
                            fragilidade_media =
                              py_round (real_of_int (sum_list (map (\<lambda>r. fragilidade (fst r)) ?opt))
                                / real (length ?opt)) 2,
                            provincias = set (map (\<lambda>r. provincia (fst r)) ?opt),
                            tipos_ecosistema = set (map (\<lambda>r. tipo_ecosistema (fst r)) ?opt),
                            score = None \<rparr>"
  have cr: "create_route_from_locations hv rows max_budget = Some r"
    unfolding create_route_from_locations_def Let_def r_def
    using assms(3) by (simp only: p(1) pk d sum.case option.case if_False not_less[symmetric] simp_thms)
  have "locais r = map (\<lambda>i. to_dict (rows ! i)) p" by (simp add: r_def comp_def)
  moreover have "num_locais r = length rows" by (simp add: r_def p(4))
  moreover have "custo_total_aoa r = sum_list (map (\<lambda>r. taxa_aoa (fst r)) rows)" by (simp add: r_def)
  moreover have "fragilidade_media r =
      py_round (real_of_int (sum_list (map (\<lambda>r. fragilidade (fst r)) rows)) / real (length rows)) 2"
    unfolding r_def by (simp only: route.simps fr len)
  moreover have "score r = None" by (simp add: r_def)
  ultimately show ?thesis using p cr by blast
qed


lemma location_ok_to_dict: "location_ok (to_dict r)"
  by (simp add: location_ok_def to_dict_def required_route_fields_def)

lemma validate_route_data_to_dict:
  "rows \<noteq> [] \<Longrightarrow> validate_route_data (map to_dict rows)"
  by (simp add: validate_route_data_def list_all_iff location_ok_to_dict)

lemma unique_constant: "xs \<noteq> [] \<Longrightarrow> unique (map (\<lambda>x. c) xs) = [c]"
proof -
  have "filter (\<lambda>y. y \<noteq> c) (map (\<lambda>x. c) ys) = []" for ys :: "'b list"
    by (induction ys) auto
  then show "xs \<noteq> [] \<Longrightarrow> unique (map (\<lambda>x. c) xs) = [c]"
    by (cases xs) auto
qed

lemma create_geographic_clusters_few:
  "length df < 4 \<Longrightarrow> create_geographic_clusters cfg kmeans df = map (\<lambda>s. (s, 0)) df"
proof -
  assume "length df < 4"
  then have "length df div 2 \<le> 1" by simp
  then have "min c (min (int (length df div 2)) (int (length df))) < 2" for c :: int
    by simp
  then show ?thesis by (simp add: create_geographic_clusters_def Let_def)
qed

text \<open>A catalog too small for clustering that fits one route: one attempt on all of it.\<close>

lemma generate_routes_few:
  assumes "df \<noteq> []" "length df < 4"
    and "int (length df) \<le> or_default max_locations (default_max_locations cfg)"
  shows "generate_routes cfg hv kmeans sample randint df max_locations num_routes max_budget g =
           (select_best_routes
              (calculate_route_scores (\<lambda>x. py_round x 3) cfg
                 (case create_route_from_locations hv (map (\<lambda>s. (s, 0)) df)
                         (or_default max_budget (default_max_budget cfg)) of
                    None \<Rightarrow> [] | Some r \<Rightarrow> [r]))
              (or_default num_routes (default_num_routes cfg)), g)"
proof -
  have u: "unique (map snd (map (\<lambda>s. (s, 0::nat)) df)) = [0]"
    using unique_constant[OF assms(1), of "0::nat"] by (simp add: comp_def)
  have f: "filter (\<lambda>r. snd r = 0) (map (\<lambda>s. (s, 0::nat)) df) = map (\<lambda>s. (s, 0)) df"
    by (induction df) auto
  have cl: "cluster_loop hv sample randint (map (\<lambda>s. (s, 0)) df)
              (or_default max_locations (default_max_locations cfg))
              (or_default max_budget (default_max_budget cfg))
              (unique (map snd (map (\<lambda>s. (s, 0::nat)) df))) g =
            ((case create_route_from_locations hv (map (\<lambda>s. (s, 0)) df)
                         (or_default max_budget (default_max_budget cfg)) of
                    None \<Rightarrow> [] | Some r \<Rightarrow> [r]), g)"
    unfolding u using assms(3)
    by (simp add: f generate_cluster_routes_def split: option.splits)
  show ?thesis
    unfolding generate_routes_def Let_def create_geographic_clusters_few[OF assms(2)] cl
    using assms(1) by simp
qed

lemma select_best_routes_single:
  assumes "score r \<noteq> None" "0 < n"
  shows "select_best_routes [r] n = (if validate_route_data (locais r) then [r] else [])"
  using assms by (cases "nat n") (auto simp: select_best_routes_def py_take_def Let_def)


lemma create_route_from_locations_over_budget:
  "max_budget < sum_list (map (\<lambda>r. taxa_aoa (fst r)) rows) \<Longrightarrow>
   create_route_from_locations hv rows max_budget = None"
  by (simp add: create_route_from_locations_def Let_def)

text \<open>
  C3. For a catalog of three sites with prices 25000, 15000 and 30000 AOA and fragilities
  3, 2 and 4, \<^verbatim>\<open>generate_routes\<close> with maximum length 3 returns no candidate for the budget
  50000, and for the budget 80000 exactly one candidate, which holds the three sites in
  the order of the nearest-neighbour tour from index 0 and has total cost 70000.
\<close>

theorem scenario_three_sites:
  assumes "map taxa_aoa df = [25000, 15000, 30000]"
    and "map fragilidade df = [3, 2, 4]"
    and "coords_valid (map (\<lambda>s. (latitude s, longitude s)) df)"
    and "case num_routes of None \<Rightarrow> True | Some n \<Rightarrow> 0 \<le> n"
  shows "generate_routes default_config hv kmeans sample randint df (Some 3) num_routes (Some 50000) g
           = ([], g) \<and>
         (\<exists>p r. nearest_neighbor_route hv (map (\<lambda>s. (latitude s, longitude s)) df) 0
                  = Inr (map int p) \<and>
                distinct p \<and> set p = {0, 1, 2} \<and> hd p = 0 \<and>
                greedy_tour hv (map (\<lambda>s. (latitude s, longitude s)) df) p \<and>
                generate_routes default_config hv kmeans sample randint df (Some 3) num_routes
                    (Some 80000) g = ([r], g) \<and>
                locais r = map (\<lambda>i. to_dict (df ! i, 0)) p \<and> num_locais r = 3 \<and>
                custo_total_aoa r = 70000 \<and> fragilidade_media r = 3)"
proof -
  let ?rows = "map (\<lambda>s. (s, 0::nat)) df"
  let ?cs = "map (\<lambda>s. (latitude s, longitude s)) df"
  from assms(1) have len: "length df = 3"
    by (metis length_map length_Cons list.size(3) numeral_3_eq_3)
  then have ne: "df \<noteq> []" and few: "length df < 4" by auto
  have ml: "int (length df) \<le> or_default (Some 3) (default_max_locations default_config)"
    by (simp add: len or_default_def)
  have cost: "sum_list (map (\<lambda>r. taxa_aoa (fst r)) ?rows) = 70000"
    using assms(1) by (simp add: comp_def)
  have frag: "sum_list (map (\<lambda>r. fragilidade (fst r)) ?rows) = 9"
    using assms(2) by (simp add: comp_def)
  have cs: "map site_coord ?rows = ?cs" by (simp add: site_coord_def comp_def)
  have nr: "0 < or_default num_routes (default_num_routes default_config)"
    using assms(4) by (auto simp: or_default_def default_config_def split: option.splits)
  have none: "create_route_from_locations hv ?rows (or_default (Some 50000) (default_max_budget default_config)) = None"
    by (rule create_route_from_locations_over_budget) (use cost in \<open>simp add: or_default_def\<close>)
  have first: "generate_routes default_config hv kmeans sample randint df (Some 3) num_routes (Some 50000) g
           = ([], g)"
    by (simp add: generate_routes_few[OF ne few ml] none calculate_route_scores_def
        select_best_routes_def)
  have "sum_list (map (\<lambda>r. taxa_aoa (fst r)) ?rows) \<le> or_default (Some 80000) (default_max_budget default_config)"
    using cost by (simp add: or_default_def)
  moreover have "?rows \<noteq> []" using ne by simp
  moreover have "coords_valid (map site_coord ?rows)" using assms(3) by (simp only: cs)
  ultimately have "\<exists>p r. nearest_neighbor_route hv (map site_coord ?rows) 0 = Inr (map int p) \<and>
           distinct p \<and> set p = {..<length ?rows} \<and> hd p = 0 \<and>
           greedy_tour hv (map site_coord ?rows) p \<and>
           create_route_from_locations hv ?rows
             (or_default (Some 80000) (default_max_budget default_config)) = Some r \<and>
           locais r = map (\<lambda>i. to_dict (?rows ! i)) p \<and>
           num_locais r = length ?rows \<and>
           custo_total_aoa r = sum_list (map (\<lambda>r. taxa_aoa (fst r)) ?rows) \<and>
           fragilidade_media r =
             py_round (real_of_int (sum_list (map (\<lambda>r. fragilidade (fst r)) ?rows)) / real (length ?rows)) 2 \<and>
           score r = None"
    by (intro create_route_from_locations_Some)
  then obtain p r0 where p: "nearest_neighbor_route hv ?cs 0 = Inr (map int p)" "distinct p"
      "set p = {..<length ?rows}" "hd p = 0" "greedy_tour hv ?cs p"
    and r0: "create_route_from_locations hv ?rows (or_default (Some 80000) (default_max_budget default_config)) = Some r0"
      "locais r0 = map (\<lambda>i. to_dict (?rows ! i)) p" "num_locais r0 = length ?rows"
      "custo_total_aoa r0 = sum_list (map (\<lambda>r. taxa_aoa (fst r)) ?rows)"
      "fragilidade_media r0 =
         py_round (real_of_int (sum_list (map (\<lambda>r. fragilidade (fst r)) ?rows)) / real (length ?rows)) 2"
    unfolding cs by blast
  define r where "r = r0\<lparr>score := Some (py_round (route_score default_config r0) 3)\<rparr>"
  have three: "{..<(3::nat)} = {0, 1, 2}" by auto
  have sp: "set p = {0, 1, 2}" using p(3) len by (simp add: three)
  have pne: "p \<noteq> []" using sp by auto
  have "map (\<lambda>i. to_dict (?rows ! i)) p = map (\<lambda>i. to_dict (df ! i, 0)) p"
  proof (rule map_cong[OF refl])
    fix i assume "i \<in> set p"
    then have "i < length df" using p(3) by simp
    then show "to_dict (?rows ! i) = to_dict (df ! i, 0)" by simp
  qed
  then have loc: "locais r = map (\<lambda>i. to_dict (df ! i, 0)) p"
    using r0(2) by (simp add: r_def)
  have valid: "validate_route_data (locais r)"
    unfolding loc using validate_route_data_to_dict[of "map (\<lambda>i. (df ! i, 0)) p"] pne
    by (simp add: comp_def)
  have sel: "select_best_routes [r] (or_default num_routes (default_num_routes default_config)) = [r]"
    using select_best_routes_single[OF _ nr, of r] valid by (simp add: r_def)
  have second: "generate_routes default_config hv kmeans sample randint df (Some 3) num_routes
                    (Some 80000) g = ([r], g)"
    using sel by (simp add: generate_routes_few[OF ne few ml] r0(1) calculate_route_scores_def r_def)
  have "num_locais r = 3" using r0(3) len by (simp add: r_def)
  moreover have "custo_total_aoa r = 70000" using r0(4) cost by (simp add: r_def)
  moreover have "fragilidade_media r = 3"
    using r0(5) frag by (simp add: r_def len py_round_def round_half_even_def)
  ultimately show ?thesis using first p(1,2,4,5) sp second loc by blast
qed

theorem scenario_three_sites_witness:
  "map taxa_aoa test_catalog = [25000, 15000, 30000] \<and>
   map fragilidade test_catalog = [3, 2, 4] \<and>
   coords_valid (map (\<lambda>s. (latitude s, longitude s)) test_catalog) \<and>
   generate_routes default_config haversine kmeans_stub sample_stub randint_stub test_catalog
       (Some 3) (Some 2) (Some 50000) 0 = ([], 0) \<and>
   (\<exists>p r. nearest_neighbor_route haversine (map (\<lambda>s. (latitude s, longitude s)) test_catalog) 0
            = Inr (map int p) \<and>
          distinct p \<and> set p = {0, 1, 2} \<and> hd p = 0 \<and>
          greedy_tour haversine (map (\<lambda>s. (latitude s, longitude s)) test_catalog) p \<and>
          generate_routes default_config haversine kmeans_stub sample_stub randint_stub test_catalog
              (Some 3) (Some 2) (Some 80000) 0 = ([r], 0) \<and>
          locais r = map (\<lambda>i. to_dict (test_catalog ! i, 0)) p \<and> num_locais r = 3 \<and>
          custo_total_aoa r = 70000 \<and> fragilidade_media r = 3)"
proof -
  have a: "map taxa_aoa test_catalog = [25000, 15000, 30000]"
    "map fragilidade test_catalog = [3, 2, 4]"
    "coords_valid (map (\<lambda>s. (latitude s, longitude s)) test_catalog)"
    by (simp_all add: test_catalog_def kissama_def kalandula_def iona_def coords_valid_def
        coord_valid_def)
  have b: "case Some (2::int) of None \<Rightarrow> True | Some n \<Rightarrow> 0 \<le> n" by simp
  from scenario_three_sites[OF a b, of haversine kmeans_stub sample_stub randint_stub 0] a
  show ?thesis by blast
qed

lemma py_take_length: "0 \<le> n \<Longrightarrow> length (py_take n xs) \<le> nat n"
  by (simp add: py_take_def)

lemma py_take_subset: "set (py_take n xs) \<subseteq> set xs"
  by (auto simp: py_take_def dest: in_set_takeD)

lemma select_best_routes_length:
  assumes "0 \<le> n"
  shows "length (select_best_routes pool n) \<le> nat n"
proof -
  let ?sorted = "sort_key (\<lambda>r. the (score r)) pool"
  have "length (filter (\<lambda>r. validate_route_data (locais r)) (py_take n ?sorted))
          \<le> length (py_take n ?sorted)"
    by (rule length_filter_le)
  also have "\<dots> \<le> nat n" by (rule py_take_length[OF assms])
  finally have "length (filter (\<lambda>r. validate_route_data (locais r)) (py_take n ?sorted)) \<le> nat n" .
  moreover have "length (py_take n pool) \<le> nat n" by (rule py_take_length[OF assms])
  ultimately show ?thesis
    unfolding select_best_routes_def Let_def by (simp del: length_filter_le)
qed

lemma select_best_routes_subset: "set (select_best_routes pool n) \<subseteq> set pool"
proof -
  have "set (py_take n (sort_key f pool)) \<subseteq> set pool" for f :: "route \<Rightarrow> real"
    using py_take_subset[of n "sort_key f pool"] by simp
  then show ?thesis
    using py_take_subset[of n pool] by (auto simp: select_best_routes_def Let_def)
qed


text \<open>A small catalog within bounds and budget yields exactly one route, of all its sites.\<close>

lemma generate_routes_few_one:
  assumes "df \<noteq> []" "length df < 4"
    and "int (length df) \<le> or_default max_locations (default_max_locations cfg)"
    and "coords_valid (map (\<lambda>s. (latitude s, longitude s)) df)"
    and "sum_list (map taxa_aoa df) \<le> or_default max_budget (default_max_budget cfg)"
    and "0 < or_default num_routes (default_num_routes cfg)"
  shows "\<exists>r. generate_routes cfg hv kmeans sample randint df max_locations num_routes max_budget g
               = ([r], g) \<and>
             num_locais r = length df \<and> custo_total_aoa r = sum_list (map taxa_aoa df)"
proof -
  let ?rows = "map (\<lambda>s. (s, 0::nat)) df"
  let ?b = "or_default max_budget (default_max_budget cfg)"
  have cs: "map site_coord ?rows = map (\<lambda>s. (latitude s, longitude s)) df"
    by (simp add: site_coord_def comp_def)
  have cost: "sum_list (map (\<lambda>r. taxa_aoa (fst r)) ?rows) = sum_list (map taxa_aoa df)"
    by (simp add: comp_def)
  have "?rows \<noteq> []" using assms(1) by simp
  moreover have "coords_valid (map site_coord ?rows)" using assms(4) by (simp only: cs)
  moreover have "sum_list (map (\<lambda>r. taxa_aoa (fst r)) ?rows) \<le> ?b"
    using assms(5) by (simp only: cost)
  ultimately have "\<exists>p r. nearest_neighbor_route hv (map site_coord ?rows) 0 = Inr (map int p) \<and>
           distinct p \<and> set p = {..<length ?rows} \<and> hd p = 0 \<and>
           greedy_tour hv (map site_coord ?rows) p \<and>
           create_route_from_locations hv ?rows ?b = Some r \<and>
           locais r = map (\<lambda>i. to_dict (?rows ! i)) p \<and>
           num_locais r = length ?rows \<and>
           custo_total_aoa r = sum_list (map (\<lambda>r. taxa_aoa (fst r)) ?rows) \<and>
           fragilidade_media r =
             py_round (real_of_int (sum_list (map (\<lambda>r. fragilidade (fst r)) ?rows)) / real (length ?rows)) 2 \<and>
           score r = None"
    by (intro create_route_from_locations_Some)
  then obtain p r0 where p: "set p = {..<length ?rows}"
    and r0: "create_route_from_locations hv ?rows ?b = Some r0"
      "locais r0 = map (\<lambda>i. to_dict (?rows ! i)) p" "num_locais r0 = length ?rows"
      "custo_total_aoa r0 = sum_list (map (\<lambda>r. taxa_aoa (fst r)) ?rows)"
    by blast
  define r where "r = r0\<lparr>score := Some (py_round (route_score cfg r0) 3)\<rparr>"
  have "0 < length ?rows" using assms(1) by simp
  then have "0 \<in> set p" unfolding p by (simp only: lessThan_iff)
  then have "p \<noteq> []" by (cases p) simp_all
  then have "validate_route_data (map to_dict (map ((!) ?rows) p))"
    by (intro validate_route_data_to_dict) simp
  then have valid: "validate_route_data (locais r)"
    using r0(2) by (simp add: r_def comp_def)
  have sel: "select_best_routes [r] (or_default num_routes (default_num_routes cfg)) = [r]"
    using select_best_routes_single[OF _ assms(6), of r] valid by (simp add: r_def)
  have "generate_routes cfg hv kmeans sample randint df max_locations num_routes max_budget g = ([r], g)"
    using sel by (simp add: generate_routes_few[OF assms(1,2,3)] r0(1) calculate_route_scores_def r_def)
  moreover have "num_locais r = length df" using r0(3) by (simp add: r_def)
  moreover have "custo_total_aoa r = sum_list (map taxa_aoa df)" using r0(4) cost by (simp add: r_def)
  ultimately show ?thesis by blast
qed

section \<open>Routes stay within their limits\<close>

lemma scan_nearest_index:
  "scan_nearest hv cs cur visited todo acc = Inr acc' \<Longrightarrow>
   snd acc' = snd acc \<or> (\<exists>j \<in> set todo. \<not> visited ! j \<and> snd acc' = int j)"
proof (induction todo arbitrary: acc)
  case Nil
  then show ?case by simp
next
  case (Cons i todo)
  obtain md nx where acc: "acc = (md, nx)" by (cases acc)
  show ?case
  proof (cases "visited ! i")
    case True
    with Cons.prems have "scan_nearest hv cs cur visited todo acc = Inr acc'"
      by (simp add: acc)
    from Cons.IH[OF this] show ?thesis by auto
  next
    case False
    from Cons.prems False obtain d where d: "calculate_distance hv cur (cs ! i) = Inr d"
      by (cases "calculate_distance hv cur (cs ! i)") (simp_all add: acc)
    show ?thesis
    proof (cases "below d md")
      case True
      with Cons.prems False d have "scan_nearest hv cs cur visited todo (Some d, int i) = Inr acc'"
        by (simp add: acc)
      from Cons.IH[OF this] False show ?thesis by auto
    next
      case nb: False
      with Cons.prems False d have "scan_nearest hv cs cur visited todo acc = Inr acc'"
        by (simp add: acc)
      from Cons.IH[OF this] show ?thesis by auto
    qed
  qed
qed

lemma nn_loop_safe:
  "nn_loop hv cs k visited (map int p) cur = Inr route \<Longrightarrow> p \<noteq> [] \<Longrightarrow> distinct p \<Longrightarrow>
   set p \<subseteq> {..<length cs} \<Longrightarrow> length visited = length cs \<Longrightarrow>
   (\<forall>i<length cs. visited ! i \<longleftrightarrow> i \<in> set p) \<Longrightarrow>
   \<exists>q. route = map int q \<and> q \<noteq> [] \<and> distinct q \<and> set q \<subseteq> {..<length cs}"
proof (induction k arbitrary: visited p cur)
  case 0
  then show ?case by auto
next
  case (Suc k)
  let ?n = "length cs"
  from Suc.prems(1) obtain c where c: "py_index ?n cur = Some c"
    by (cases "py_index ?n cur") simp_all
  from Suc.prems(1) c obtain md nx where
    sc: "scan_nearest hv cs (cs ! c) visited [0 ..< ?n] (None, - 1) = Inr (md, nx)"
    by (cases "scan_nearest hv cs (cs ! c) visited [0 ..< ?n] (None, - 1)") auto
  show ?case
  proof (cases "nx = - 1")
    case True
    with Suc.prems(1) c sc have "nn_loop hv cs k visited (map int p) cur = Inr route"
      by simp
    from Suc.IH[OF this Suc.prems(2-6)] show ?thesis .
  next
    case False
    with scan_nearest_index[OF sc] obtain j where j: "j < ?n" "\<not> visited ! j" "nx = int j"
      by auto
    then have jp: "j \<notin> set p" using Suc.prems(6) by simp
    from Suc.prems(1) c sc False j(3)
    have run: "nn_loop hv cs k (visited[j := True]) (map int (p @ [j])) (int j) = Inr route"
      by simp
    have "\<forall>i<?n. (visited[j := True]) ! i \<longleftrightarrow> i \<in> set (p @ [j])"
      using Suc.prems(5,6) j(1) by (auto simp: nth_list_update)
    moreover have "distinct (p @ [j])" using Suc.prems(3) jp by simp
    moreover have "set (p @ [j]) \<subseteq> {..<?n}" using Suc.prems(4) j(1) by simp
    moreover have "length (visited[j := True]) = ?n" using Suc.prems(5) by simp
    ultimately show ?thesis using Suc.IH[OF run] by blast
  qed
qed

lemma nearest_neighbor_route_safe:
  assumes "nearest_neighbor_route hv cs 0 = Inr route" "cs \<noteq> []"
  shows "\<exists>q. route = map int q \<and> q \<noteq> [] \<and> distinct q \<and> set q \<subseteq> {..<length cs}"
proof (cases "length cs \<le> 1")
  case True
  with assms(1) have "route = map int [0]" by (simp add: nearest_neighbor_route_def)
  moreover from True assms(2) have "length cs = 1" by (cases cs) simp_all
  ultimately have "route = map int [0]" "length cs = 1" by simp_all
  then show ?thesis by (intro exI[of _ "[0]"]) simp
next
  case False
  let ?n = "length cs"
  have "py_index ?n 0 = Some 0" using assms(2) by (simp add: py_index_def)
  with False assms(1)
  have run: "nn_loop hv cs (?n - 1) ((replicate ?n False)[0 := True]) (map int [0]) 0 = Inr route"
    by (simp add: nearest_neighbor_route_def Let_def)
  have "\<forall>i<?n. ((replicate ?n False)[0 := True]) ! i \<longleftrightarrow> i \<in> set [0::nat]"
    using assms(2) by (auto simp: nth_list_update)
  moreover have "set [0::nat] \<subseteq> {..<?n}" using assms(2) by simp
  ultimately show ?thesis using nn_loop_safe[OF run] by simp
qed

lemma distinct_map_nth:
  assumes "distinct xs" "distinct q" "set q \<subseteq> {..<length xs}"
  shows "distinct (map ((!) xs) q)"
proof -
  have "inj_on ((!) xs) (set q)"
  proof (rule inj_onI)
    fix x y assume "x \<in> set q" "y \<in> set q" "xs ! x = xs ! y"
    moreover from this assms(3) have "x < length xs" "y < length xs" by auto
    ultimately show "x = y" using assms(1) by (simp add: nth_eq_iff_index_eq)
  qed
  with assms(2) show ?thesis by (simp add: distinct_map)
qed

lemma mean_fragility_bound:
  assumes "xs \<noteq> []" "\<forall>x \<in> set xs. f x \<le> (m::int)"
  shows "real_of_int (sum_list (map f xs)) / real (length xs) \<le> of_int m"
proof -
  have "sum_list (map f xs) \<le> sum_list (map (\<lambda>x. m) xs)"
    using assms(2) by (intro sum_list_mono) simp
  also have "\<dots> = int (length xs) * m" by (simp add: sum_list_triv)
  finally have "real_of_int (sum_list (map f xs)) \<le> real (length xs) * of_int m"
    by (metis of_int_le_iff of_int_mult of_int_of_nat_eq)
  moreover have "0 < real (length xs)" using assms(1) by simp
  ultimately show ?thesis by (simp add: pos_divide_le_eq mult.commute)
qed

lemma site_fields_to_dict_inj:
  assumes "site_fields (to_dict a) = site_fields (to_dict b)"
  shows "fst a = fst b"
  using assms by (cases "fst a"; cases "fst b") (simp add: site_fields_def to_dict_def)

lemma create_route_from_locations_fields:
  assumes "create_route_from_locations hv rows max_budget = Some r"
  shows "\<exists>idx opt.
           nearest_neighbor_route hv (map site_coord rows) 0 = Inr idx \<and>
           pick rows idx = Some opt \<and>
           sum_list (map (\<lambda>r. taxa_aoa (fst r)) rows) \<le> max_budget \<and>
           locais r = map to_dict opt \<and> num_locais r = length opt \<and>
           custo_total_aoa r = sum_list (map (\<lambda>r. taxa_aoa (fst r)) rows) \<and>
           fragilidade_media r =
             py_round (real_of_int (sum_list (map (\<lambda>r. fragilidade (fst r)) opt)) / real (length opt)) 2"
proof -
  let ?cost = "sum_list (map (\<lambda>r. taxa_aoa (fst r)) rows)"
  from assms(1) have cost: "?cost \<le> max_budget"
    by (cases "?cost > max_budget") (simp_all add: create_route_from_locations_def Let_def)
  from assms(1) cost obtain idx where
    idx: "nearest_neighbor_route hv (map site_coord rows) 0 = Inr idx"
    by (cases "nearest_neighbor_route hv (map site_coord rows) 0")
       (simp_all add: create_route_from_locations_def Let_def)
  from assms(1) cost idx obtain opt where opt: "pick rows idx = Some opt"
    by (cases "pick rows idx") (simp_all add: create_route_from_locations_def Let_def)
  have "\<exists>d. calculate_route_distance hv (map site_coord opt) (map int [0 ..< length opt]) = Inr d"
  proof (cases "calculate_route_distance hv (map site_coord opt) (map int [0 ..< length opt])")
    case (Inl e)
    have "create_route_from_locations hv rows max_budget = None"
      unfolding create_route_from_locations_def Let_def
      using cost by (simp only: idx opt Inl sum.case option.case if_False not_less[symmetric] simp_thms)
    with assms(1) show ?thesis by simp
  next
    case (Inr d)
    then show ?thesis by blast
  qed
  then obtain d where
    d: "calculate_route_distance hv (map site_coord opt) (map int [0 ..< length opt]) = Inr d"
    by blast
  define r' where "r' = \<lparr> rota_nome = ''Rota Cluster '' @ str_nat (snd (hd rows) + 1) @ '' - ''
                                @ str_nat (length opt) @ '' locais'',
                            locais = map to_dict opt,
                            num_locais = length opt,
                            distancia_total_km = py_round d 2,
                            custo_total_aoa = ?cost,
                            fragilidade_media =
                              py_round (real_of_int (sum_list (map (\<lambda>r. fragilidade (fst r)) opt))
                                / real (length opt)) 2,
                            provincias = set (map (\<lambda>r. provincia (fst r)) opt),
                            tipos_ecosistema = set (map (\<lambda>r. tipo_ecosistema (fst r)) opt),
                            score = None \<rparr>"
  have "create_route_from_locations hv rows max_budget = Some r'"
    unfolding create_route_from_locations_def Let_def r'_def
    using cost by (simp only: idx opt d sum.case option.case if_False not_less[symmetric] simp_thms)
  with assms(1) have rr: "r = r'" by simp
  have r: "locais r = map to_dict opt" "num_locais r = length opt" "custo_total_aoa r = ?cost"
    "fragilidade_media r =
       py_round (real_of_int (sum_list (map (\<lambda>r. fragilidade (fst r)) opt)) / real (length opt)) 2"
    unfolding rr r'_def by simp_all
  show ?thesis using idx opt cost r by blast
qed

lemma created_route_fragility_hundredths:
  assumes "create_route_from_locations hv rows max_budget = Some r"
  shows "\<exists>k::int. fragilidade_media r = of_int k / 100"
proof -
  from create_route_from_locations_fields[OF assms] obtain x where
    "fragilidade_media r = py_round x 2" by blast
  then show ?thesis using py_round_hundredth[of x] by simp
qed

lemma create_route_from_locations_limits:
  assumes "create_route_from_locations hv rows max_budget = Some r"
    and "distinct (map fst rows)"
    and "\<forall>x \<in> set rows. fragilidade (fst x) \<le> max_fragility"
    and "length rows \<le> max_sites"
  shows "within_limits max_budget max_sites max_fragility r"
proof -
  let ?cost = "sum_list (map (\<lambda>r. taxa_aoa (fst r)) rows)"
  from create_route_from_locations_fields[OF assms(1)] obtain idx opt where
    idx: "nearest_neighbor_route hv (map site_coord rows) 0 = Inr idx"
    and opt: "pick rows idx = Some opt"
    and cost: "?cost \<le> max_budget"
    and r: "locais r = map to_dict opt" "num_locais r = length opt" "custo_total_aoa r = ?cost"
      "fragilidade_media r =
         py_round (real_of_int (sum_list (map (\<lambda>r. fragilidade (fst r)) opt)) / real (length opt)) 2"
    by blast
  have ne: "rows \<noteq> []"
  proof
    assume "rows = []"
    with idx have "idx = [0]" by (simp add: nearest_neighbor_route_def)
    with opt \<open>rows = []\<close> show False by (simp add: py_index_def)
  qed
  then have "map site_coord rows \<noteq> []" by simp
  from nearest_neighbor_route_safe[OF idx this]
  obtain q where q: "idx = map int q" "q \<noteq> []" "distinct q" "set q \<subseteq> {..<length rows}"
    by auto
  have optq: "opt = map ((!) rows) q"
    using opt q(1,4) by (simp add: pick_nat)
  have len: "length opt = length q" by (simp add: optq)
  have "card (set q) \<le> card {..<length rows}" using q(4) by (intro card_mono) auto
  then have qlen: "length q \<le> length rows" using q(3) by (simp add: distinct_card)
  have sub: "set opt \<subseteq> set rows" using q(4) by (auto simp: optq)
  have "map fst opt = map ((!) (map fst rows)) q"
    unfolding optq map_map by (rule map_cong[OF refl]) (use q(4) in auto)
  moreover have "distinct (map ((!) (map fst rows)) q)"
    by (rule distinct_map_nth[OF assms(2) q(3)]) (use q(4) in simp)
  ultimately have dis: "distinct (map fst opt)" by (simp only:)
  have "distinct (map site_fields (map to_dict opt))"
  proof -
    have "inj_on (\<lambda>x. site_fields (to_dict x)) (set opt)"
    proof (rule inj_onI)
      fix x y assume xy: "x \<in> set opt" "y \<in> set opt"
        "site_fields (to_dict x) = site_fields (to_dict y)"
      then have "fst x = fst y" by (intro site_fields_to_dict_inj)
      moreover have "inj_on fst (set opt)" using dis by (simp add: distinct_map)
      ultimately show "x = y" using xy(1,2) by (simp add: inj_on_def)
    qed
    moreover have "distinct opt" using dis by (simp add: distinct_map)
    ultimately show ?thesis by (simp add: distinct_map comp_def)
  qed
  moreover have "fragilidade_media r \<le> of_int max_fragility"
  proof -
    have "opt \<noteq> []" using q(2) by (simp add: optq)
    moreover have "\<forall>x \<in> set opt. fragilidade (fst x) \<le> max_fragility"
      using sub assms(3) by auto
    ultimately have "real_of_int (sum_list (map (\<lambda>r. fragilidade (fst r)) opt)) / real (length opt)
                       \<le> of_int max_fragility"
      by (rule mean_fragility_bound)
    from py_round_mono[OF this, of 2] show ?thesis
      by (simp only: r(4) py_round_of_int)
  qed
  moreover have "1 \<le> length (locais r)" using q(2) by (cases q) (simp_all add: r(1) len)
  moreover have "length (locais r) \<le> max_sites" using qlen assms(4) by (simp add: r(1) len)
  ultimately show ?thesis
    using cost r(1,2,3) by (simp add: within_limits_def)
qed

lemma create_geographic_clusters_sites:
  "map fst (create_geographic_clusters cfg kmeans df) = df"
  by (simp add: create_geographic_clusters_def Let_def comp_def split: option.splits)

lemma sample_routes_limits:
  assumes "sample_without_replacement sample"
    and "distinct (map fst cluster_df)"
    and "\<forall>x \<in> set cluster_df. fragilidade (fst x) \<le> max_fragility"
  shows "sample_routes hv sample randint cluster_df max_locations max_budget attempts g = (Some routes, g') \<Longrightarrow>
         \<forall>r \<in> set routes. within_limits max_budget (nat max_locations) max_fragility r"
proof (induction attempts arbitrary: g routes g')
  case 0
  then show ?case by simp
next
  case (Suc attempts)
  let ?n = "min max_locations (int (length cluster_df))"
  obtain x h where dr: "randint g = (x, h)" by (cases "randint g")
  have nn: "(?n < 0) = (max_locations < 0)" by auto
  from Suc.prems have pos: "\<not> max_locations < 0"
    by (auto simp: dr Let_def nn)
  let ?pos = "sample x (nat ?n) (length cluster_df)"
  have "nat ?n \<le> length cluster_df" by simp
  with assms(1) have s: "length ?pos = nat ?n" "distinct ?pos" "set ?pos \<subseteq> {..<length cluster_df}"
    unfolding sample_without_replacement_def by blast+
  let ?sel = "map ((!) cluster_df) ?pos"
  have pk: "pick cluster_df (map int ?pos) = Some ?sel" using s(3) by (rule pick_nat)
  obtain more k where rest:
    "sample_routes hv sample randint cluster_df max_locations max_budget attempts h = (more, k)"
    by (cases "sample_routes hv sample randint cluster_df max_locations max_budget attempts h")
  from Suc.prems pos obtain rs where more: "more = Some rs"
    by (cases more) (simp_all add: dr Let_def nn pk rest)
  from Suc.IH[OF rest[unfolded more]]
  have ih: "\<forall>r \<in> set rs. within_limits max_budget (nat max_locations) max_fragility r" .
  have "map fst ?sel = map ((!) (map fst cluster_df)) ?pos"
    unfolding map_map by (rule map_cong[OF refl]) (use s(3) in auto)
  moreover have "distinct (map ((!) (map fst cluster_df)) ?pos)"
    by (rule distinct_map_nth[OF assms(2) s(2)]) (use s(3) in simp)
  ultimately have d: "distinct (map fst ?sel)" by (simp only:)
  have f: "\<forall>x \<in> set ?sel. fragilidade (fst x) \<le> max_fragility"
    using s(3) assms(3) by auto
  have l: "length ?sel \<le> nat max_locations" using s(1) by simp
  show ?case
  proof (cases "create_route_from_locations hv ?sel max_budget")
    case None
    with Suc.prems pos have "routes = rs"
      by (simp add: dr Let_def nn pk rest more)
    with ih show ?thesis by simp
  next
    case (Some r)
    with Suc.prems pos have "routes = r # rs"
      by (simp add: dr Let_def nn pk rest more)
    with ih create_route_from_locations_limits[OF Some d f l] show ?thesis by simp
  qed
qed

lemma generate_cluster_routes_limits:
  assumes "sample_without_replacement sample"
    and "distinct (map fst cluster_df)"
    and "\<forall>x \<in> set cluster_df. fragilidade (fst x) \<le> max_fragility"
    and "r \<in> set (fst (generate_cluster_routes hv sample randint cluster_df max_locations max_budget g))"
  shows "within_limits max_budget (nat max_locations) max_fragility r"
proof (cases "int (length cluster_df) \<le> max_locations")
  case True
  then have l: "length cluster_df \<le> nat max_locations" by simp
  from assms(4) True have "create_route_from_locations hv cluster_df max_budget = Some r"
    by (cases "create_route_from_locations hv cluster_df max_budget")
       (simp_all add: generate_cluster_routes_def)
  from create_route_from_locations_limits[OF this assms(2,3) l] show ?thesis .
next
  case False
  let ?k = "min 3 (length cluster_df div 2)"
  obtain a g' where s: "sample_routes hv sample randint cluster_df max_locations max_budget ?k g = (a, g')"
    by (cases "sample_routes hv sample randint cluster_df max_locations max_budget ?k g")
  from assms(4) False s obtain routes where a: "a = Some routes" and r: "r \<in> set routes"
    by (cases a) (simp_all add: generate_cluster_routes_def)
  from sample_routes_limits[OF assms(1,2,3) s[unfolded a]] r show ?thesis by blast
qed

lemma cluster_loop_limits:
  assumes "sample_without_replacement sample"
    and "distinct (map fst df_clustered)"
    and "\<forall>x \<in> set df_clustered. fragilidade (fst x) \<le> max_fragility"
  shows "r \<in> set (fst (cluster_loop hv sample randint df_clustered max_locations max_budget ids g)) \<Longrightarrow>
         within_limits max_budget (nat max_locations) max_fragility r"
proof (induction ids arbitrary: g)
  case Nil
  then show ?case by simp
next
  case (Cons c ids)
  let ?cdf = "filter (\<lambda>r. snd r = c) df_clustered"
  obtain a h where s: "generate_cluster_routes hv sample randint ?cdf max_locations max_budget g = (a, h)"
    by (cases "generate_cluster_routes hv sample randint ?cdf max_locations max_budget g")
  obtain b k where t: "cluster_loop hv sample randint df_clustered max_locations max_budget ids h = (b, k)"
    by (cases "cluster_loop hv sample randint df_clustered max_locations max_budget ids h")
  from Cons.prems have "r \<in> set a \<or> r \<in> set b" by (simp add: s t)
  then show ?case
  proof
    assume "r \<in> set a"
    then have "r \<in> set (fst (generate_cluster_routes hv sample randint ?cdf max_locations max_budget g))"
      by (simp add: s)
    moreover have "distinct (map fst ?cdf)" using assms(2) by (rule distinct_map_filter)
    moreover have "\<forall>x \<in> set ?cdf. fragilidade (fst x) \<le> max_fragility" using assms(3) by simp
    ultimately show ?thesis
      by (intro generate_cluster_routes_limits[OF assms(1), of ?cdf max_fragility r hv randint
            max_locations max_budget g])
  next
    assume "r \<in> set b"
    then have "r \<in> set (fst (cluster_loop hv sample randint df_clustered max_locations max_budget ids h))"
      by (simp add: t)
    then show ?thesis by (rule Cons.IH)
  qed
qed

lemma within_limits_score [simp]:
  "within_limits b m f (r\<lparr>score := s\<rparr>) = within_limits b m f r"
  by (simp add: within_limits_def)

lemma sample_stub_without_replacement: "sample_without_replacement sample_stub"
  by (auto simp: sample_without_replacement_def sample_stub_def)

text \<open>
  What holds of every candidate: for a catalog of distinct sites whose fragility is at
  most \<open>max_fragility\<close>, a budget and a maximum route length other than zero, and a
  sampling without replacement, every route in the list returned by
  \<^verbatim>\<open>generate_routes\<close> has a total cost of at most the budget, a mean fragility of at most
  \<open>max_fragility\<close>, at least one and at most \<open>max_locations\<close> sites, and no site twice.
  The sums are over unbounded numbers, where the data frame holds 64-bit values.
\<close>

lemma generated_routes_within_limits:
  assumes "distinct df"
    and "\<forall>s \<in> set df. fragilidade s \<le> max_fragility"
    and "max_budget \<noteq> 0" and "max_locations \<noteq> 0"
    and "sample_without_replacement sample"
    and "r \<in> set (fst (generate_routes cfg hv kmeans sample randint df (Some max_locations)
                       num_routes (Some max_budget) g))"
  shows "custo_total_aoa r \<le> max_budget \<and>
         fragilidade_media r \<le> of_int max_fragility \<and>
         1 \<le> length (locais r) \<and> length (locais r) \<le> nat max_locations \<and>
         num_locais r = length (locais r) \<and>
         distinct (map site_fields (locais r))"
proof -
  let ?dfc = "create_geographic_clusters cfg kmeans df"
  have ne: "df \<noteq> []" using assms(6) by (auto simp: generate_routes_def)
  obtain a k where t:
    "cluster_loop hv sample randint ?dfc max_locations max_budget (unique (map snd ?dfc)) g = (a, k)"
    by (cases "cluster_loop hv sample randint ?dfc max_locations max_budget (unique (map snd ?dfc)) g")
  have od: "or_default (Some max_locations) (default_max_locations cfg) = max_locations"
    "or_default (Some max_budget) (default_max_budget cfg) = max_budget"
    using assms(3,4) by (simp_all add: or_default_def)
  have "fst (generate_routes cfg hv kmeans sample randint df (Some max_locations)
               num_routes (Some max_budget) g)
          = select_best_routes (calculate_route_scores (\<lambda>x. py_round x 3) cfg a)
              (or_default num_routes (default_num_routes cfg))"
    using ne by (simp add: generate_routes_def Let_def od t)
  with assms(6) select_best_routes_subset have "r \<in> set (calculate_route_scores (\<lambda>x. py_round x 3) cfg a)"
    by auto
  then obtain r0 where r0: "r0 \<in> set a" "r = r0\<lparr>score := Some (py_round (route_score cfg r0) 3)\<rparr>"
    by (auto simp: calculate_route_scores_def)
  have "distinct (map fst ?dfc)" using assms(1) by (simp add: create_geographic_clusters_sites)
  moreover have "\<forall>x \<in> set ?dfc. fragilidade (fst x) \<le> max_fragility"
  proof
    fix x assume "x \<in> set ?dfc"
    then have "fst x \<in> set (map fst ?dfc)" by simp
    then show "fragilidade (fst x) \<le> max_fragility"
      using assms(2) by (simp add: create_geographic_clusters_sites)
  qed
  moreover have "r0 \<in> set (fst (cluster_loop hv sample randint ?dfc max_locations max_budget
                                   (unique (map snd ?dfc)) g))"
    using r0(1) by (simp add: t)
  ultimately have "within_limits max_budget (nat max_locations) max_fragility r0"
    by (intro cluster_loop_limits[OF assms(5), of ?dfc max_fragility r0 hv randint max_locations
          max_budget "unique (map snd ?dfc)" g])
  then show ?thesis by (simp add: r0(2) within_limits_def)
qed

text \<open>
  C1. The claim is that every candidate returned by \<^verbatim>\<open>generate_routes\<close> has at least
  two sites. On a catalog of one site, with a maximum length of 3 and a budget of 20000,
  the one candidate returned has that one site: a cluster of at most \<open>max_locations\<close>
  sites becomes a route whatever its size.
\<close>

theorem generate_routes_single_site:
  "map num_locais (fst (generate_routes default_config flat_distance kmeans_stub sample_stub
                          randint_stub [kalandula] (Some 3) (Some 5) (Some 20000) 0)) = [1]"
proof -
  have "\<exists>r. generate_routes default_config flat_distance kmeans_stub sample_stub randint_stub
                  [kalandula] (Some 3) (Some 5) (Some 20000) 0 = ([r], 0) \<and>
             num_locais r = length [kalandula] \<and>
             custo_total_aoa r = sum_list (map taxa_aoa [kalandula])"
    by (rule generate_routes_few_one)
       (simp_all add: kalandula_def or_default_def default_config_def coords_valid_def
          coord_valid_def)
  then show ?thesis by auto
qed

section \<open>A run with clustering and sampling\<close>

text \<open>
  Four sites in two clusters of two, and routes of at most one site: each cluster is
  sampled once, and the two routes come back sorted by their score.
\<close>

lemma four_clusters:
  "create_geographic_clusters default_config kmeans_stub four_sites
     = [(kissama, 0), (kalandula, 1), (iona, 0), (luando, 1)]"
  by (simp add: create_geographic_clusters_def default_config_def kmeans_stub_def four_sites_def
      upt_conv_Cons Let_def)

lemma create_route_single:
  assumes "taxa_aoa (fst x) \<le> max_budget"
  shows "create_route_from_locations hv [x] max_budget =
           Some \<lparr> rota_nome = ''Rota Cluster '' @ str_nat (snd x + 1) @ '' - 1 locais'',
                  locais = [to_dict x], num_locais = 1, distancia_total_km = 0,
                  custo_total_aoa = taxa_aoa (fst x),
                  fragilidade_media = of_int (fragilidade (fst x)),
                  provincias = {provincia (fst x)}, tipos_ecosistema = {tipo_ecosistema (fst x)},
                  score = None \<rparr>"
proof -
  have "py_round (real_of_int (fragilidade (fst x))) 2 = of_int (fragilidade (fst x))"
    by (rule py_round_of_int)
  moreover have "py_round 0 2 = 0" by (simp add: py_round_def round_half_even_def)
  ultimately show ?thesis
    using assms
    by (simp add: create_route_from_locations_def nearest_neighbor_route_def py_index_def
        digit_char_def)
qed

lemma cluster_routes_sampled:
  assumes "taxa_aoa (fst x) \<le> max_budget"
  shows "generate_cluster_routes hv sample_stub randint_stub [x, y] 1 max_budget g =
           ([the (create_route_from_locations hv [x] max_budget)], Suc g)"
  by (simp add: generate_cluster_routes_def randint_stub_def sample_stub_def py_index_def
      create_route_single[OF assms] Let_def)

lemma four_sites_sampled:
  "map (\<lambda>r. (rota_nome r, num_locais r, custo_total_aoa r, fragilidade_media r, score r))
     (fst (generate_routes default_config flat_distance kmeans_stub sample_stub randint_stub
             four_sites (Some 1) (Some 5) (Some 100000) 0))
   = [(''Rota Cluster 2 - 1 locais'', 1, 15000, 2, Some 0.93),
      (''Rota Cluster 1 - 1 locais'', 1, 25000, 3, Some 1.4)]"
proof -
  have ne: "four_sites \<noteq> []" by (simp add: four_sites_def)
  have od: "or_default (Some (1::int)) (default_max_locations default_config) = 1"
    "or_default (Some (100000::real)) (default_max_budget default_config) = 100000"
    "or_default (Some (5::int)) (default_num_routes default_config) = 5"
    by (simp_all add: or_default_def)
  have k: "taxa_aoa (fst (kissama, 0::nat)) \<le> 100000" "taxa_aoa (fst (kalandula, Suc 0)) \<le> 100000"
    by (simp_all add: kissama_def kalandula_def)
  have loop: "cluster_loop flat_distance sample_stub randint_stub
          [(kissama, 0), (kalandula, 1), (iona, 0), (luando, 1)] 1 100000 [0, 1] 0
        = ([the (create_route_from_locations flat_distance [(kissama, 0)] 100000),
            the (create_route_from_locations flat_distance [(kalandula, 1)] 100000)], 2)"
    by (simp add: cluster_routes_sampled[OF k(1)] cluster_routes_sampled[OF k(2)])
  have u: "unique (map snd [(kissama, 0::nat), (kalandula, 1), (iona, 0), (luando, 1)]) = [0, 1]"
    by simp
  have gen: "generate_routes default_config flat_distance kmeans_stub sample_stub randint_stub
             four_sites (Some 1) (Some 5) (Some 100000) 0
        = (select_best_routes
             (calculate_route_scores (\<lambda>x. py_round x 3) default_config
                [the (create_route_from_locations flat_distance [(kissama, 0)] 100000),
                 the (create_route_from_locations flat_distance [(kalandula, 1)] 100000)]) 5, 2)"
    unfolding generate_routes_def Let_def od four_clusters u loop
    using ne by simp
  have c1: "the (create_route_from_locations flat_distance [(kissama, 0)] 100000) =
      \<lparr> rota_nome = ''Rota Cluster 1 - 1 locais'', locais = [to_dict (kissama, 0)],
        num_locais = 1, distancia_total_km = 0, custo_total_aoa = 25000, fragilidade_media = 3,
        provincias = {''Luanda''}, tipos_ecosistema = {''savana''}, score = None \<rparr>"
    unfolding create_route_single[OF k(1)] by (simp add: kissama_def digit_char_def)
  have c2: "the (create_route_from_locations flat_distance [(kalandula, 1)] 100000) =
      \<lparr> rota_nome = ''Rota Cluster 2 - 1 locais'', locais = [to_dict (kalandula, 1)],
        num_locais = 1, distancia_total_km = 0, custo_total_aoa = 15000, fragilidade_media = 2,
        provincias = {''Malange''}, tipos_ecosistema = {''floresta''}, score = None \<rparr>"
    unfolding One_nat_def create_route_single[OF k(2)] by (simp add: kalandula_def digit_char_def)
  show ?thesis
    unfolding gen fst_conv c1 c2
    by (simp add: calculate_route_scores_def route_score_def default_config_def
        select_best_routes_def py_take_def validate_route_data_def location_ok_to_dict
        py_round_def round_half_even_def)
qed

section \<open>The routes returned\<close>



lemma sample_routes_created:
  "sample_routes hv sample randint cluster_df max_locations max_budget attempts g = (Some routes, g') \<Longrightarrow>
   r \<in> set routes \<Longrightarrow> \<exists>rows. create_route_from_locations hv rows max_budget = Some r"
proof (induction attempts arbitrary: g routes g')
  case 0
  then show ?case by simp
next
  case (Suc attempts)
  let ?n = "min max_locations (int (length cluster_df))"
  obtain x h where dr: "randint g = (x, h)" by (cases "randint g")
  have nn: "(?n < 0) = (max_locations < 0)" by auto
  from Suc.prems(1) have pos: "\<not> max_locations < 0"
    by (auto simp: dr Let_def nn)
  from Suc.prems(1) pos obtain sel where
    pk: "pick cluster_df (map int (sample x (nat ?n) (length cluster_df))) = Some sel"
    by (cases "pick cluster_df (map int (sample x (nat ?n) (length cluster_df)))")
       (simp_all add: dr Let_def nn)
  obtain more k where rest:
    "sample_routes hv sample randint cluster_df max_locations max_budget attempts h = (more, k)"
    by (cases "sample_routes hv sample randint cluster_df max_locations max_budget attempts h")
  from Suc.prems(1) pos obtain rs where more: "more = Some rs"
    by (cases more) (simp_all add: dr Let_def nn pk rest)
  show ?case
  proof (cases "create_route_from_locations hv sel max_budget")
    case None
    with Suc.prems(1) pos have "routes = rs"
      by (simp add: dr Let_def nn pk rest more)
    with Suc.prems(2) Suc.IH[OF rest[unfolded more]] show ?thesis by simp
  next
    case (Some r')
    with Suc.prems(1) pos have "routes = r' # rs"
      by (simp add: dr Let_def nn pk rest more)
    with Suc.prems(2) have "r = r' \<or> r \<in> set rs" by simp
    then show ?thesis using Some Suc.IH[OF rest[unfolded more]] by blast
  qed
qed

lemma generate_cluster_routes_created:
  assumes "r \<in> set (fst (generate_cluster_routes hv sample randint cluster_df max_locations max_budget g))"
  shows "\<exists>rows. create_route_from_locations hv rows max_budget = Some r"
proof (cases "int (length cluster_df) \<le> max_locations")
  case True
  with assms have "create_route_from_locations hv cluster_df max_budget = Some r"
    by (cases "create_route_from_locations hv cluster_df max_budget")
       (simp_all add: generate_cluster_routes_def)
  then show ?thesis by blast
next
  case False
  let ?k = "min 3 (length cluster_df div 2)"
  obtain a g' where s: "sample_routes hv sample randint cluster_df max_locations max_budget ?k g = (a, g')"
    by (cases "sample_routes hv sample randint cluster_df max_locations max_budget ?k g")
  from assms False s obtain routes where a: "a = Some routes" and r: "r \<in> set routes"
    by (cases a) (simp_all add: generate_cluster_routes_def)
  from sample_routes_created[OF s[unfolded a] r] show ?thesis .
qed

lemma cluster_loop_created:
  "r \<in> set (fst (cluster_loop hv sample randint df_clustered max_locations max_budget ids g)) \<Longrightarrow>
   \<exists>rows. create_route_from_locations hv rows max_budget = Some r"
proof (induction ids arbitrary: g)
  case Nil
  then show ?case by simp
next
  case (Cons c ids)
  let ?cdf = "filter (\<lambda>r. snd r = c) df_clustered"
  obtain a h where s: "generate_cluster_routes hv sample randint ?cdf max_locations max_budget g = (a, h)"
    by (cases "generate_cluster_routes hv sample randint ?cdf max_locations max_budget g")
  obtain b k where t: "cluster_loop hv sample randint df_clustered max_locations max_budget ids h = (b, k)"
    by (cases "cluster_loop hv sample randint df_clustered max_locations max_budget ids h")
  from Cons.prems have "r \<in> set a \<or> r \<in> set b" by (simp add: s t)
  then show ?case
  proof
    assume "r \<in> set a"
    then have "r \<in> set (fst (generate_cluster_routes hv sample randint ?cdf max_locations max_budget g))"
      by (simp add: s)
    then show ?thesis by (rule generate_cluster_routes_created)
  next
    assume "r \<in> set b"
    then have "r \<in> set (fst (cluster_loop hv sample randint df_clustered max_locations max_budget ids h))"
      by (simp add: t)
    then show ?thesis by (rule Cons.IH)
  qed
qed


lemma scored_pool_created:
  assumes "r \<in> set (scored_pool cfg hv kmeans sample randint df max_locations max_budget g)"
  shows "\<exists>rows r0. create_route_from_locations hv rows
                      (or_default max_budget (default_max_budget cfg)) = Some r0 \<and>
                    r = r0\<lparr>score := Some (py_round (route_score cfg r0) 3)\<rparr>"
proof -
  from assms have ne: "df \<noteq> []" by (auto simp: scored_pool_def)
  let ?dfc = "create_geographic_clusters cfg kmeans df"
  let ?all = "fst (cluster_loop hv sample randint ?dfc
                      (or_default max_locations (default_max_locations cfg))
                      (or_default max_budget (default_max_budget cfg))
                      (unique (map snd ?dfc)) g)"
  from assms ne have "r \<in> set (calculate_route_scores (\<lambda>x. py_round x 3) cfg ?all)"
    by (simp add: scored_pool_def Let_def)
  then obtain r0 where r0: "r0 \<in> set ?all" "r = r0\<lparr>score := Some (py_round (route_score cfg r0) 3)\<rparr>"
    by (auto simp: calculate_route_scores_def)
  from cluster_loop_created[OF r0(1)] r0(2) show ?thesis by blast
qed








section \<open>Properties of the stored scores\<close>

lemma created_routes_fragility_gap:
  assumes "create_route_from_locations hv rows1 budget1 = Some r1"
    and "create_route_from_locations hv' rows2 budget2 = Some r2"
    and "fragilidade_media r1 < fragilidade_media r2"
  shows "fragilidade_media r1 + 1 / 100 \<le> fragilidade_media r2"
proof -
  from created_route_fragility_hundredths[OF assms(1)] obtain k1 :: int where
    k1: "fragilidade_media r1 = of_int k1 / 100" by blast
  from created_route_fragility_hundredths[OF assms(2)] obtain k2 :: int where
    k2: "fragilidade_media r2 = of_int k2 / 100" by blast
  from assms(3) have "(of_int k1 :: real) < of_int k2" by (simp add: k1 k2)
  then have "k1 + 1 \<le> k2" by simp
  then have "(of_int k1 :: real) + 1 \<le> of_int k2"
    by (metis of_int_1 of_int_add of_int_le_iff)
  then show ?thesis by (simp add: k1 k2 field_simps)
qed

lemma route_score_default:
  "route_score default_config r =
     0.45 * fragilidade_media r + 0.35 * (distancia_total_km r / 1000)
       + 0.20 * (custo_total_aoa r / 100000)"
  by (simp add: route_score_def default_config_def)

lemma py_round_thousandth: "\<bar>py_round x 3 - x\<bar> \<le> 1 / 1000"
proof -
  have "x - 1 / 2000 \<le> py_round x 3" "py_round x 3 \<le> x + 1 / 2000"
    using py_round_bounds[of x 3] by simp_all
  then show ?thesis by linarith
qed

lemma pair_low_route:
  "create_route_from_locations flat_distance pair_low 50000 =
     Some \<lparr> rota_nome = ''Rota Cluster 1 - 2 locais'',
            locais = [to_dict (kissama, 0), to_dict (kalandula, 0)], num_locais = 2,
            distancia_total_km = 3.1, custo_total_aoa = 40000, fragilidade_media = 2.5,
            provincias = {''Luanda'', ''Malange''}, tipos_ecosistema = {''savana'', ''floresta''},
            score = None \<rparr>"
  by (simp add: create_route_from_locations_def pair_low_def nearest_neighbor_route_def
      py_index_def calculate_distance_def validate_coordinates_def site_coord_def
      flat_distance_def kissama_def kalandula_def py_round_def round_half_even_def
      digit_char_def Let_def)

lemma pair_high_route:
  "create_route_from_locations flat_distance pair_high 50000 =
     Some \<lparr> rota_nome = ''Rota Cluster 1 - 2 locais'',
            locais = [to_dict (kissama\<lparr>fragilidade := 5\<rparr>, 0), to_dict (kalandula, 0)],
            num_locais = 2,
            distancia_total_km = 3.1, custo_total_aoa = 40000, fragilidade_media = 3.5,
            provincias = {''Luanda'', ''Malange''}, tipos_ecosistema = {''savana'', ''floresta''},
            score = None \<rparr>"
  by (simp add: create_route_from_locations_def pair_high_def nearest_neighbor_route_def
      py_index_def calculate_distance_def validate_coordinates_def site_coord_def
      flat_distance_def kissama_def kalandula_def py_round_def round_half_even_def
      digit_char_def Let_def)

text \<open>
  C7. The stored score of a route is the weighted sum
  \<open>0.45 * meanFragility + 0.35 * (totalDistanceKm / 1000) + 0.20 * (totalCostAOA / 100000)\<close>
  rounded to three decimals. Of two routes built by \<^verbatim>\<open>_create_route_from_locations\<close>
  with equal total distance and equal total cost, the one with strictly greater mean
  fragility receives a strictly greater stored score. This holds for every rounding
  that stays within 0.001 of its argument, as the rounding over the reals and the
  rounding of the float both do: the mean fragilities have two decimals, so that the
  weighted sums differ by 0.0045 at least.
\<close>

theorem stored_score_strictly_monotone:
  fixes round3 :: "real \<Rightarrow> real"
  assumes "\<And>x. \<bar>round3 x - x\<bar> \<le> 1 / 1000"
    and "create_route_from_locations hv rows1 budget1 = Some r1"
    and "create_route_from_locations hv rows2 budget2 = Some r2"
    and "distancia_total_km r1 = distancia_total_km r2"
    and "custo_total_aoa r1 = custo_total_aoa r2"
    and "fragilidade_media r1 < fragilidade_media r2"
  shows "map score (calculate_route_scores round3 default_config [r1, r2])
           = [Some (round3 (0.45 * fragilidade_media r1 + 0.35 * (distancia_total_km r1 / 1000)
                              + 0.20 * (custo_total_aoa r1 / 100000))),
              Some (round3 (0.45 * fragilidade_media r2 + 0.35 * (distancia_total_km r2 / 1000)
                              + 0.20 * (custo_total_aoa r2 / 100000)))] \<and>
         round3 (0.45 * fragilidade_media r1 + 0.35 * (distancia_total_km r1 / 1000)
                   + 0.20 * (custo_total_aoa r1 / 100000))
           < round3 (0.45 * fragilidade_media r2 + 0.35 * (distancia_total_km r2 / 1000)
                       + 0.20 * (custo_total_aoa r2 / 100000))"
proof -
  let ?f = "\<lambda>r. 0.45 * fragilidade_media r + 0.35 * (distancia_total_km r / 1000)
                  + 0.20 * (custo_total_aoa r / 100000)"
  have stored: "map score (calculate_route_scores round3 default_config [r1, r2])
                  = [Some (round3 (?f r1)), Some (round3 (?f r2))]"
    by (simp add: calculate_route_scores_def route_score_default)
  from created_routes_fragility_gap[OF assms(2,3,6)]
  have "?f r1 + 45 / 10000 \<le> ?f r2" using assms(4,5) by simp
  moreover have "round3 (?f r1) \<le> ?f r1 + 1 / 1000" using assms(1)[of "?f r1"] by linarith
  moreover have "?f r2 - 1 / 1000 \<le> round3 (?f r2)" using assms(1)[of "?f r2"] by linarith
  ultimately have "round3 (?f r1) < round3 (?f r2)" by linarith
  with stored show ?thesis by simp
qed

theorem stored_score_strictly_monotone_witness:
  "(\<forall>x. \<bar>py_round x 3 - x\<bar> \<le> 1 / 1000) \<and>
   create_route_from_locations flat_distance pair_low 50000 \<noteq> None \<and>
   create_route_from_locations flat_distance pair_high 50000 \<noteq> None \<and>
   map (\<lambda>r. (distancia_total_km r, custo_total_aoa r, fragilidade_media r))
     [the (create_route_from_locations flat_distance pair_low 50000),
      the (create_route_from_locations flat_distance pair_high 50000)]
     = [(3.1, 40000, 2.5), (3.1, 40000, 3.5)] \<and>
   map score (calculate_route_scores (\<lambda>x. py_round x 3) default_config
                [the (create_route_from_locations flat_distance pair_low 50000),
                 the (create_route_from_locations flat_distance pair_high 50000)])
     = [Some 1.206, Some 1.656] \<and>
   (1.206 :: real) < 1.656"
proof -
  let ?lo = "the (create_route_from_locations flat_distance pair_low 50000)"
  let ?hi = "the (create_route_from_locations flat_distance pair_high 50000)"
  have lo: "create_route_from_locations flat_distance pair_low 50000 = Some ?lo"
    by (simp add: pair_low_route)
  have hi: "create_route_from_locations flat_distance pair_high 50000 = Some ?hi"
    by (simp add: pair_high_route)
  have vals: "map (\<lambda>r. (distancia_total_km r, custo_total_aoa r, fragilidade_media r)) [?lo, ?hi]
                = [(3.1, 40000, 2.5), (3.1, 40000, 3.5)]"
    by (simp add: pair_low_route pair_high_route)
  have r: "py_round (0.45 * 2.5 + 0.35 * (3.1 / 1000) + 0.20 * (40000 / 100000)) 3 = 1.206"
    "py_round (0.45 * 3.5 + 0.35 * (3.1 / 1000) + 0.20 * (40000 / 100000)) 3 = 1.656"
    by (simp_all add: py_round_def round_half_even_def)
  from stored_score_strictly_monotone[of "\<lambda>x. py_round x 3", OF py_round_thousandth lo hi]
  have main: "map score (calculate_route_scores (\<lambda>x. py_round x 3) default_config [?lo, ?hi])
          = [Some 1.206, Some 1.656]" "(1.206 :: real) < 1.656"
    using r by (simp_all add: pair_low_route pair_high_route)
  have a: "\<forall>x. \<bar>py_round x 3 - x\<bar> \<le> 1 / 1000" using py_round_thousandth by blast
  have b: "create_route_from_locations flat_distance pair_low 50000 \<noteq> None"
    "create_route_from_locations flat_distance pair_high 50000 \<noteq> None"
    by (simp_all add: pair_low_route pair_high_route)
  show ?thesis by (intro conjI a b vals main)
qed

text \<open>The same for two candidates of one pool, with the scores as \<^verbatim>\<open>generate_routes\<close> stores them.\<close>

lemma scored_pool_monotone:
  assumes "r1 \<in> set (scored_pool cfg hv kmeans sample randint df max_locations max_budget g)"
    and "r2 \<in> set (scored_pool cfg hv kmeans sample randint df max_locations max_budget g)"
    and "cfg = default_config"
    and "distancia_total_km r1 = distancia_total_km r2"
    and "custo_total_aoa r1 = custo_total_aoa r2"
    and "fragilidade_media r1 < fragilidade_media r2"
  shows "the (score r1) < the (score r2)"
proof -
  from scored_pool_created[OF assms(1)] obtain rows1 a where
    a: "create_route_from_locations hv rows1 (or_default max_budget (default_max_budget cfg)) = Some a"
       "r1 = a\<lparr>score := Some (py_round (route_score cfg a) 3)\<rparr>" by blast
  from scored_pool_created[OF assms(2)] obtain rows2 b where
    b: "create_route_from_locations hv rows2 (or_default max_budget (default_max_budget cfg)) = Some b"
       "r2 = b\<lparr>score := Some (py_round (route_score cfg b) 3)\<rparr>" by blast
  have "fragilidade_media a < fragilidade_media b" using assms(6) by (simp add: a(2) b(2))
  from created_routes_fragility_gap[OF a(1) b(1) this]
  have "route_score cfg a + 45 / 10000 \<le> route_score cfg b"
    using assms(4,5) by (simp add: assms(3) route_score_default a(2) b(2))
  moreover have "py_round (route_score cfg a) 3 \<le> route_score cfg a + 1 / 1000"
    using py_round_thousandth[of "route_score cfg a"] by linarith
  moreover have "route_score cfg b - 1 / 1000 \<le> py_round (route_score cfg b) 3"
    using py_round_thousandth[of "route_score cfg b"] by linarith
  ultimately have "py_round (route_score cfg a) 3 < py_round (route_score cfg b) 3" by linarith
  then show ?thesis by (simp add: a(2) b(2))
qed

end
